theory Spec2Isabelle
  imports Complex_Main
begin

section \<open>The Coinbase client of PyAlgoTrade: session controller and dispatch loop\<close>

text \<open>
  A shallow embedding of \<^verbatim>\<open>pyalgotrade/coinbase/client.py\<close>. The classes of that file
  become records, every method becomes a function that takes the object and returns the
  updated object together with the list of calls it made to its collaborators (the
  observers, the HTTP client, the worker thread, the logger), in the order of the source.
  A Python exception that leaves a method is the \<open>Inl\<close> of a sum; a method that can
  loop forever returns an \<open>option\<close>, \<open>None\<close> meaning that it never returns.
\<close>

subsection \<open>Events and the worker's queue\<close>

text \<open>\<^verbatim>\<open>WebSocketClient.Event\<close>: the event kinds are plain integers in the source.\<close>

type_synonym event_type = int

definition ERROR :: event_type where "ERROR = 1"
definition CONNECTED :: event_type where "CONNECTED = 2"
definition DISCONNECTED :: event_type where "DISCONNECTED = 3"
definition ORDER_MATCH :: event_type where "ORDER_MATCH = 4"
definition ORDER_RECEIVED :: event_type where "ORDER_RECEIVED = 5"
definition ORDER_OPEN :: event_type where "ORDER_OPEN = 6"
definition ORDER_DONE :: event_type where "ORDER_DONE = 7"
definition ORDER_CHANGE :: event_type where "ORDER_CHANGE = 8"
definition SEQ_NR_MISMATCH :: event_type where "SEQ_NR_MISMATCH = 9"

lemmas Event_defs = ERROR_def CONNECTED_def DISCONNECTED_def ORDER_MATCH_def
  ORDER_RECEIVED_def ORDER_OPEN_def ORDER_DONE_def ORDER_CHANGE_def SEQ_NR_MISMATCH_def

text \<open>
  The second component of a queued pair: \<^verbatim>\<open>None\<close> for the connection events, the current
  sequence number for a sequence mismatch, the decoded message otherwise.
\<close>

datatype 'm event_data = NoData | Sequence int | Message 'm

text \<open>
  \<^verbatim>\<open>WebSocketClientThread\<close> with the \<^verbatim>\<open>WebSocketClient\<close> it owns, as the client observes
  them: \<^verbatim>\<open>is_alive()\<close>, \<^verbatim>\<open>isConnected()\<close>, whether \<^verbatim>\<open>stopClient()\<close> was requested, and the
  content of the \<^verbatim>\<open>Queue.Queue\<close> created in \<^verbatim>\<open>WebSocketClient.__init__\<close>.
\<close>

record 'm ws_thread =
  is_alive :: bool
  isConnected :: bool
  stopRequested :: bool
  ws_queue :: "(event_type \<times> 'm event_data) list"

definition queue_put :: "event_type \<times> 'm event_data \<Rightarrow> 'm ws_thread \<Rightarrow> 'm ws_thread" where
  "queue_put e t = t\<lparr>ws_queue := ws_queue t @ [e]\<rparr>"

definition stopClient :: "'m ws_thread \<Rightarrow> 'm ws_thread" where
  "stopClient t = t\<lparr>stopRequested := True\<rparr>"

text \<open>The callbacks of \<^verbatim>\<open>WebSocketClient\<close> that forward to the queue; the others only log.\<close>

definition onOpened :: "'m ws_thread \<Rightarrow> 'm ws_thread" where
  "onOpened t = queue_put (CONNECTED, NoData) t"

definition onClosed :: "'m ws_thread \<Rightarrow> 'm ws_thread" where
  "onClosed t = queue_put (DISCONNECTED, NoData) t"

definition onDisconnectionDetected :: "'m ws_thread \<Rightarrow> 'm ws_thread" where
  "onDisconnectionDetected t = queue_put (DISCONNECTED, NoData) (stopClient t)"

definition onError :: "'m \<Rightarrow> 'm ws_thread \<Rightarrow> 'm ws_thread" where
  "onError msg t = queue_put (ERROR, Message msg) t"

definition onSequenceMismatch :: "int \<Rightarrow> int \<Rightarrow> 'm ws_thread \<Rightarrow> 'm ws_thread" where
  "onSequenceMismatch lastValidSequence currentSequence t =
     queue_put (SEQ_NR_MISMATCH, Sequence currentSequence) t"

definition onOrderReceived :: "'m \<Rightarrow> 'm ws_thread \<Rightarrow> 'm ws_thread" where
  "onOrderReceived msg t = queue_put (ORDER_RECEIVED, Message msg) t"

definition onOrderOpen :: "'m \<Rightarrow> 'm ws_thread \<Rightarrow> 'm ws_thread" where
  "onOrderOpen msg t = queue_put (ORDER_OPEN, Message msg) t"

definition onOrderDone :: "'m \<Rightarrow> 'm ws_thread \<Rightarrow> 'm ws_thread" where
  "onOrderDone msg t = queue_put (ORDER_DONE, Message msg) t"

definition onOrderMatch :: "'m \<Rightarrow> 'm ws_thread \<Rightarrow> 'm ws_thread" where
  "onOrderMatch msg t = queue_put (ORDER_MATCH, Message msg) t"

definition onOrderChange :: "'m \<Rightarrow> 'm ws_thread \<Rightarrow> 'm ws_thread" where
  "onOrderChange msg t = queue_put (ORDER_CHANGE, Message msg) t"

subsection \<open>The collaborators of the client\<close>

text \<open>
  The web socket base class, the HTTP client and \<^verbatim>\<open>obooksync.L3OrderBookSync\<close> are not
  part of the sources at hand; the client's code is embedded over them as parameters.
\<close>

text \<open>
  Modelled from the spec: the worker thread of the missing \<^verbatim>\<open>wsclient\<close>, as far as the
  client observes one run of \<^verbatim>\<open>WebSocketClientThread.run\<close> through \<^verbatim>\<open>is_alive()\<close> and
  \<^verbatim>\<open>isConnected()\<close>. The thread is alive and not connected for a number of polls, and then
  either it is connected (\<open>Connects\<close>) or \<^verbatim>\<open>connect()\<close> has raised, \<^verbatim>\<open>run\<close> has logged the
  failure and the thread has ended (\<open>Dies\<close>). Connection establishment is time-bounded
  (section 5 of the specification), so every attempt is one of the two.
\<close>

datatype attempt = Connects nat | Dies nat

text \<open>
  Modelled from the spec: after how many polls an attempt is settled, whether it connects,
  and what \<^verbatim>\<open>is_alive()\<close> and \<^verbatim>\<open>isConnected()\<close> of the missing \<^verbatim>\<open>wsclient\<close> answer at poll
  \<open>k\<close>.
\<close>

fun resolved_after :: "attempt \<Rightarrow> nat" where
  "resolved_after (Connects n) = n"
| "resolved_after (Dies n) = n"

fun connects :: "attempt \<Rightarrow> bool" where
  "connects (Connects n) = True"
| "connects (Dies n) = False"

definition alive_at :: "attempt \<Rightarrow> nat \<Rightarrow> bool" where
  "alive_at a k = (k < resolved_after a \<or> connects a)"

definition connected_at :: "attempt \<Rightarrow> nat \<Rightarrow> bool" where
  "connected_at a k = (resolved_after a \<le> k \<and> connects a)"

definition new_thread :: "'m ws_thread" where
  "new_thread = \<lparr>is_alive = True, isConnected = False, stopRequested = False, ws_queue = []\<rparr>"

text \<open>
  Modelled from the spec: the thread of attempt \<open>a\<close> after \<open>k\<close> polls, for the missing
  \<^verbatim>\<open>wsclient\<close>; on connecting, \<^verbatim>\<open>onOpened\<close> has run.
\<close>

definition thread_at :: "attempt \<Rightarrow> nat \<Rightarrow> 'm ws_thread" where
  "thread_at a k =
     (let t = new_thread\<lparr>is_alive := alive_at a k, isConnected := connected_at a k\<rparr>
      in if connected_at a k then onOpened t else t)"

datatype error = ConnectError | HTTPError | TypeError | AssertionError | AttributeError

text \<open>
  The environment: the outcome of the \<open>i\<close>-th connection attempt, the response of the
  \<open>i\<close>-th call of \<^verbatim>\<open>HTTPClient.getOrderBook\<close> (\<open>None\<close> when the request raises), the
  constructor of
  \<^verbatim>\<open>L3OrderBookSync\<close> and its five handlers, each returning whether the book was updated
  together with the book it leaves.
\<close>

record ('m, 'b, 'sn) env =
  attempts :: "nat \<Rightarrow> attempt"
  getOrderBook :: "nat \<Rightarrow> 'sn option"
  L3OrderBookSync :: "'sn \<Rightarrow> 'b"
  sync_onOrderMatch :: "'b \<Rightarrow> 'm event_data \<Rightarrow> bool \<times> 'b"
  sync_onOrderReceived :: "'b \<Rightarrow> 'm event_data \<Rightarrow> bool \<times> 'b"
  sync_onOrderOpen :: "'b \<Rightarrow> 'm event_data \<Rightarrow> bool \<times> 'b"
  sync_onOrderDone :: "'b \<Rightarrow> 'm event_data \<Rightarrow> bool \<times> 'b"
  sync_onOrderChange :: "'b \<Rightarrow> 'm event_data \<Rightarrow> bool \<times> 'b"

text \<open>The calls the client makes to its collaborators.\<close>

datatype ('m, 'b) action =
    ThreadStart
  | WaitRunning
  | Sleep
  | ThreadJoin
  | ThreadStop
  | HttpGetOrderBook
  | EmitOrderEvent "'m event_data"
  | CallOrderBookSync event_type "'m event_data"
  | EmitL3OrderBook 'b
  | LogError event_type "'m event_data"

subsection \<open>The client\<close>

text \<open>
  The attributes of \<^verbatim>\<open>Client\<close> set in \<^verbatim>\<open>__init__\<close> that its methods read or write. The last
  two fields are not attributes: they count the connection attempts and the snapshot
  requests made so far, and index the environment.
\<close>

record ('m, 'b) client =
  stopped :: bool
  wsClientThread :: "'m ws_thread option"
  l3OBookSync :: "'b option"
  attemptsMade :: nat
  fetchesMade :: nat

definition Client_init :: "('m, 'b) client" where
  "Client_init = \<lparr>stopped = False, wsClientThread = None, l3OBookSync = None,
     attemptsMade = 0, fetchesMade = 0\<rparr>"

text \<open>\<^verbatim>\<open>Client.ORDER_BOOK_EVENT_DISPATCH\<close>, a dictionary.\<close>

definition ORDER_BOOK_EVENT_DISPATCH ::
  "('m, 'b, 'sn) env \<Rightarrow> event_type \<rightharpoonup> ('b \<Rightarrow> 'm event_data \<Rightarrow> bool \<times> 'b)" where
  "ORDER_BOOK_EVENT_DISPATCH env =
     [ORDER_MATCH \<mapsto> sync_onOrderMatch env,
      ORDER_RECEIVED \<mapsto> sync_onOrderReceived env,
      ORDER_OPEN \<mapsto> sync_onOrderOpen env,
      ORDER_DONE \<mapsto> sync_onOrderDone env,
      ORDER_CHANGE \<mapsto> sync_onOrderChange env]"

text \<open>
  The inner loop of \<^verbatim>\<open>__connectWS\<close>: while the thread is alive and not connected, sleep.
  The result is the number of sleeps.
\<close>

function wait_connect :: "attempt \<Rightarrow> nat \<Rightarrow> nat" where
  "wait_connect a k =
     (if alive_at a k \<and> \<not> connected_at a k then wait_connect a (Suc k) else k)"
  by pat_completeness auto
termination
  by (relation "measure (\<lambda>(a, k). resolved_after a - k)")
     (auto simp: alive_at_def connected_at_def)

text \<open>
  \<^verbatim>\<open>Client.__connectWS\<close>: the outer \<^verbatim>\<open>while True\<close> creates and starts a thread, waits for it
  to run, polls, and leaves when the thread is connected or \<open>retry\<close> is false. With
  \<open>retry\<close> it may never leave.
\<close>

partial_function (option) connectWS ::
  "('m, 'b, 'sn) env \<Rightarrow> bool \<Rightarrow> ('m, 'b) client \<Rightarrow> ('m, 'b) action list
     \<Rightarrow> (('m, 'b) client \<times> ('m, 'b) action list) option" where
  "connectWS env retry c acts =
     (let a = attempts env (attemptsMade c);
          k = wait_connect a 0;
          t = thread_at a k;
          c' = c\<lparr>wsClientThread := Some t, attemptsMade := Suc (attemptsMade c)\<rparr>;
          acts' = acts @ [ThreadStart, WaitRunning] @ replicate k Sleep
      in if isConnected t \<or> \<not> retry then Some (c', acts') else connectWS env retry c' acts')"

text \<open>\<^verbatim>\<open>Client.refreshOrderBook\<close>: an exception of the HTTP client leaves the book as it was.\<close>

definition refreshOrderBook ::
  "('m, 'b, 'sn) env \<Rightarrow> ('m, 'b) client
     \<Rightarrow> (error + unit) \<times> ('m, 'b) client \<times> ('m, 'b) action list" where
  "refreshOrderBook env c =
     (let c1 = c\<lparr>fetchesMade := Suc (fetchesMade c)\<rparr>
      in case getOrderBook env (fetchesMade c) of
           None \<Rightarrow> (Inl HTTPError, c1, [HttpGetOrderBook])
         | Some obook \<Rightarrow>
             (Inr (), c1\<lparr>l3OBookSync := Some (L3OrderBookSync env obook)\<rparr>, [HttpGetOrderBook]))"

definition onConnected ::
  "('m, 'b, 'sn) env \<Rightarrow> ('m, 'b) client
     \<Rightarrow> (error + unit) \<times> ('m, 'b) client \<times> ('m, 'b) action list" where
  "onConnected env c = refreshOrderBook env c"

definition onSeqNrMismatch ::
  "('m, 'b, 'sn) env \<Rightarrow> ('m, 'b) client
     \<Rightarrow> (error + unit) \<times> ('m, 'b) client \<times> ('m, 'b) action list" where
  "onSeqNrMismatch env c = refreshOrderBook env c"

text \<open>
  \<^verbatim>\<open>Client.__onDisconnected\<close>: \<^verbatim>\<open>join()\<close> returns once the thread has ended; then, unless
  stopped, \<^verbatim>\<open>__connectWS(True)\<close>.
\<close>

definition onDisconnected ::
  "('m, 'b, 'sn) env \<Rightarrow> ('m, 'b) client
     \<Rightarrow> ((error + unit) \<times> ('m, 'b) client \<times> ('m, 'b) action list) option" where
  "onDisconnected env c =
     (case wsClientThread c of
        None \<Rightarrow> Some (Inl AttributeError, c, [])
      | Some t \<Rightarrow>
          (let c1 = c\<lparr>wsClientThread := Some (t\<lparr>is_alive := False\<rparr>)\<rparr>
           in if \<not> stopped c1
              then (case connectWS env True c1 [ThreadJoin] of
                      None \<Rightarrow> None
                    | Some (c2, acts) \<Rightarrow> Some (Inr (), c2, acts))
              else Some (Inr (), c1, [ThreadJoin])))"

text \<open>
  \<^verbatim>\<open>Client.__onOrderEvent\<close>. The handler is an unbound method called with
  \<^verbatim>\<open>self.__l3OBookSync\<close> as its instance: while that is still \<^verbatim>\<open>None\<close> the call raises a
  \<^verbatim>\<open>TypeError\<close>, after the order event has been emitted.
\<close>

definition onOrderEvent ::
  "('m, 'b, 'sn) env \<Rightarrow> event_type \<Rightarrow> 'm event_data \<Rightarrow> ('m, 'b) client
     \<Rightarrow> (error + unit) \<times> ('m, 'b) client \<times> ('m, 'b) action list" where
  "onOrderEvent env eventType eventData c =
     (case ORDER_BOOK_EVENT_DISPATCH env eventType of
        None \<Rightarrow> (Inl AssertionError, c, [EmitOrderEvent eventData])
      | Some method \<Rightarrow>
          (case l3OBookSync c of
             None \<Rightarrow> (Inl TypeError, c, [EmitOrderEvent eventData])
           | Some b \<Rightarrow>
               (let (updated, b') = method b eventData
                in (Inr (), c\<lparr>l3OBookSync := Some b'\<rparr>,
                    [EmitOrderEvent eventData, CallOrderBookSync eventType eventData]
                      @ (if updated then [EmitL3OrderBook b'] else [])))))"

text \<open>\<^verbatim>\<open>Client.start\<close>, \<^verbatim>\<open>Client.stop\<close>, \<^verbatim>\<open>Client.join\<close>, \<^verbatim>\<open>Client.eof\<close>.\<close>

definition start ::
  "('m, 'b, 'sn) env \<Rightarrow> ('m, 'b) client
     \<Rightarrow> ((error + unit) \<times> ('m, 'b) client \<times> ('m, 'b) action list) option" where
  "start env c =
     (case connectWS env False c [] of
        None \<Rightarrow> None
      | Some (c', acts) \<Rightarrow>
          (case wsClientThread c' of
             None \<Rightarrow> Some (Inl AttributeError, c', acts)
           | Some t \<Rightarrow>
               if \<not> isConnected t then Some (Inl ConnectError, c', acts)
               else Some (Inr (), c', acts)))"

definition stop :: "('m, 'b) client \<Rightarrow> ('m, 'b) client \<times> ('m, 'b) action list" where
  "stop c =
     (case wsClientThread c of
        None \<Rightarrow> (c, [])
      | Some t \<Rightarrow> (c\<lparr>stopped := True, wsClientThread := Some (stopClient t)\<rparr>, [ThreadStop]))"

definition join :: "('m, 'b) client \<Rightarrow> ('m, 'b) client \<times> ('m, 'b) action list" where
  "join c =
     (case wsClientThread c of
        None \<Rightarrow> (c, [])
      | Some t \<Rightarrow> (c\<lparr>wsClientThread := Some (t\<lparr>is_alive := False\<rparr>)\<rparr>, [ThreadJoin]))"

definition eof :: "('m, 'b) client \<Rightarrow> bool" where
  "eof c = stopped c"

text \<open>
  \<^verbatim>\<open>Client.dispatch\<close>. \<^verbatim>\<open>ret\<close> is set to \<^verbatim>\<open>True\<close> once an event has been taken from the
  queue and back to \<^verbatim>\<open>False\<close> in the last branch; only \<^verbatim>\<open>Queue.Empty\<close> is caught, so an
  exception of a handler leaves \<^verbatim>\<open>dispatch\<close>.
\<close>

definition returning ::
  "bool \<Rightarrow> (error + unit) \<times> ('m, 'b) client \<times> ('m, 'b) action list
     \<Rightarrow> (error + bool) \<times> ('m, 'b) client \<times> ('m, 'b) action list" where
  "returning ret r =
     (case r of (Inl e, c, acts) \<Rightarrow> (Inl e, c, acts) | (Inr u, c, acts) \<Rightarrow> (Inr ret, c, acts))"

definition dispatch ::
  "('m, 'b, 'sn) env \<Rightarrow> ('m, 'b) client
     \<Rightarrow> ((error + bool) \<times> ('m, 'b) client \<times> ('m, 'b) action list) option" where
  "dispatch env c =
     (case wsClientThread c of
        None \<Rightarrow> Some (Inl AttributeError, c, [])
      | Some t \<Rightarrow>
          (case ws_queue t of
             [] \<Rightarrow> Some (Inr False, c, [])
           | (eventType, eventData) # rest \<Rightarrow>
               (let c1 = c\<lparr>wsClientThread := Some (t\<lparr>ws_queue := rest\<rparr>)\<rparr>
                in if eventType = CONNECTED then Some (returning True (onConnected env c1))
                   else if eventType = DISCONNECTED
                     then map_option (returning True) (onDisconnected env c1)
                   else if eventType \<in> set [ORDER_MATCH, ORDER_RECEIVED, ORDER_OPEN,
                                            ORDER_DONE, ORDER_CHANGE]
                     then Some (returning True (onOrderEvent env eventType eventData c1))
                   else if eventType = SEQ_NR_MISMATCH
                     then Some (returning True (onSeqNrMismatch env c1))
                   else Some (Inr False, c1, [LogError eventType eventData]))))"

subsection \<open>Notions used in the statements\<close>

text \<open>The client once \<^verbatim>\<open>Queue.get\<close> has taken the first event from the queue of thread \<open>t\<close>.\<close>

definition popped ::
  "('m, 'b) client \<Rightarrow> 'm ws_thread \<Rightarrow> (event_type \<times> 'm event_data) list \<Rightarrow> ('m, 'b) client" where
  "popped c t rest = c\<lparr>wsClientThread := Some (t\<lparr>ws_queue := rest\<rparr>)\<rparr>"

text \<open>The event kinds that \<^verbatim>\<open>dispatch\<close> routes to \<^verbatim>\<open>__onOrderEvent\<close>, and those it routes at all.\<close>

definition order_events :: "event_type set" where
  "order_events = {ORDER_MATCH, ORDER_RECEIVED, ORDER_OPEN, ORDER_DONE, ORDER_CHANGE}"

definition routed_events :: "event_type set" where
  "routed_events = {CONNECTED, DISCONNECTED, SEQ_NR_MISMATCH} \<union> order_events"

text \<open>
  What one pass of the outer loop of \<^verbatim>\<open>__connectWS\<close> leaves for attempt \<open>a\<close>: the thread at
  the end of the polling, and the calls made.
\<close>

definition attempt_thread :: "attempt \<Rightarrow> 'm ws_thread" where
  "attempt_thread a = thread_at a (resolved_after a)"

definition attempt_actions :: "attempt \<Rightarrow> ('m, 'b) action list" where
  "attempt_actions a = [ThreadStart, WaitRunning] @ replicate (resolved_after a) Sleep"


subsection \<open>A concrete environment\<close>

text \<open>
  For evaluating the client: messages are order ids, the book is the list of the ids that
  rest on it, and a snapshot is such a list. The first three connection attempts fail
  and the first snapshot request raises.
\<close>

definition sample_env :: "(nat, nat list, nat list) env" where
  "sample_env =
     \<lparr>attempts = (\<lambda>i. if i < 3 then Dies 1 else Connects 2),
      getOrderBook = (\<lambda>i. if i = 0 then None else Some [10, 11]),
      L3OrderBookSync = (\<lambda>obook. obook),
      sync_onOrderMatch = (\<lambda>b d. (False, b)),
      sync_onOrderReceived = (\<lambda>b d. (False, b)),
      sync_onOrderOpen = (\<lambda>b d. case d of Message m \<Rightarrow> (True, b @ [m]) | _ \<Rightarrow> (False, b)),
      sync_onOrderDone =
        (\<lambda>b d. case d of Message m \<Rightarrow> (m \<in> set b, removeAll m b) | _ \<Rightarrow> (False, b)),
      sync_onOrderChange = (\<lambda>b d. (False, b))\<rparr>"

definition sample_thread :: "(event_type \<times> nat event_data) list \<Rightarrow> nat ws_thread" where
  "sample_thread q = \<lparr>is_alive = True, isConnected = True, stopRequested = False, ws_queue = q\<rparr>"

definition sample_client :: "(event_type \<times> nat event_data) list \<Rightarrow> (nat, nat list) client" where
  "sample_client q =
     \<lparr>stopped = False, wsClientThread = Some (sample_thread q), l3OBookSync = Some [1, 2],
      attemptsMade = 1, fetchesMade = 1\<rparr>"

section \<open>The order book behind the client\<close>

text \<open>
  \<^verbatim>\<open>obooksync.L3OrderBookSync\<close> and its price level containers are not among the sources.
  What the claims about the book need is modelled here from the specification (its data
  model and the public contract of the merge engine); the accessors of \<^verbatim>\<open>client.py\<close>
  that read the book follow from the source.
\<close>

subsection \<open>Data model\<close>

text \<open>Modelled from the spec: the side of an order (bid or ask); \<^verbatim>\<open>obooksync\<close> is missing.\<close>

datatype side = Bid | Ask

text \<open>
  Modelled from the spec: an order with its unique id, side, price and remaining size; the
  order class of \<^verbatim>\<open>obooksync\<close> is missing.
\<close>

record order =
  order_id :: nat
  order_side :: side
  order_price :: rat
  order_size :: rat

text \<open>
  Modelled from the spec: a price level, its price and its resting orders in insertion
  order; the price level class of \<^verbatim>\<open>obooksync\<close> is missing.
\<close>

record price_level =
  level_price :: rat
  level_orders :: "order list"

text \<open>
  Modelled from the spec: the size of a level is the sum of the sizes of its orders; the
  \<^verbatim>\<open>getSize\<close> of the missing price level class.
\<close>

definition level_getSize :: "price_level \<Rightarrow> rat" where
  "level_getSize l = sum_list (map order_size (level_orders l))"

text \<open>Modelled from the spec: the \<^verbatim>\<open>getPrice\<close> of the missing price level class.\<close>

definition level_getPrice :: "price_level \<Rightarrow> rat" where
  "level_getPrice l = level_price l"

text \<open>
  Modelled from the spec: the snapshot of the REST interface, a sequence number with the
  bids and the asks; the HTTP client that builds it is missing.
\<close>

record snapshot =
  snap_sequence :: nat
  snap_bids :: "order list"
  snap_asks :: "order list"

text \<open>
  Modelled from the spec: the book, two maps from price to level kept in order (bids
  descending, asks ascending, so the best level is first) and the sequence number; the
  class \<^verbatim>\<open>L3OrderBookSync\<close> is missing.
\<close>

record order_book =
  book_bids :: "price_level list"
  book_asks :: "price_level list"
  book_sequence :: nat

subsection \<open>The merge engine\<close>

text \<open>
  Modelled from the spec: which of two prices is the better one on a side (the higher bid,
  the lower ask); the ordering of the missing price level containers.
\<close>

fun better :: "side \<Rightarrow> rat \<Rightarrow> rat \<Rightarrow> bool" where
  "better Bid p q = (q < p)"
| "better Ask p q = (p < q)"

text \<open>
  Modelled from the spec: an order is inserted at the tail of the queue of its price
  level, and the level is created in its place when absent; the insertion of the missing
  price level containers.
\<close>

fun add_order :: "side \<Rightarrow> order \<Rightarrow> price_level list \<Rightarrow> price_level list" where
  "add_order s ord [] = [\<lparr>level_price = order_price ord, level_orders = [ord]\<rparr>]"
| "add_order s ord (l # ls) =
     (if order_price ord = level_price l then l\<lparr>level_orders := level_orders l @ [ord]\<rparr> # ls
      else if better s (order_price ord) (level_price l)
        then \<lparr>level_price = order_price ord, level_orders = [ord]\<rparr> # l # ls
      else l # add_order s ord ls)"

text \<open>
  Modelled from the spec: the ids of the orders that rest on one price level; the order
  index of the missing \<^verbatim>\<open>L3OrderBookSync\<close>.
\<close>

definition level_ids :: "price_level \<Rightarrow> nat list" where
  "level_ids l = map order_id (level_orders l)"

text \<open>
  Modelled from the spec: the ids of all the orders on one side, level by level; the order
  index of the missing \<^verbatim>\<open>L3OrderBookSync\<close>.
\<close>

definition side_ids :: "price_level list \<Rightarrow> nat list" where
  "side_ids ls = concat (map level_ids ls)"

text \<open>
  Modelled from the spec: looking an order up by its id on one side; the lookup of the
  missing \<^verbatim>\<open>L3OrderBookSync\<close>.
\<close>

fun find_order :: "nat \<Rightarrow> price_level list \<Rightarrow> order option" where
  "find_order oid [] = None"
| "find_order oid (l # ls) =
     (case find (\<lambda>ord. order_id ord = oid) (level_orders l) of
        Some ord \<Rightarrow> Some ord
      | None \<Rightarrow> find_order oid ls)"

text \<open>
  Modelled from the spec: an order is removed from its level, and the level is deleted
  when it becomes empty; the removal of the missing price level containers.
\<close>

fun remove_order :: "nat \<Rightarrow> price_level list \<Rightarrow> price_level list" where
  "remove_order oid [] = []"
| "remove_order oid (l # ls) =
     (if oid \<in> set (level_ids l)
      then (let rest = filter (\<lambda>ord. order_id ord \<noteq> oid) (level_orders l)
            in if rest = [] then ls else l\<lparr>level_orders := rest\<rparr> # ls)
      else l # remove_order oid ls)"

text \<open>
  Modelled from the spec: the remaining size of an order is updated in place, with no
  relocation of the level; the update of the missing price level containers.
\<close>

definition resize_order :: "nat \<Rightarrow> rat \<Rightarrow> price_level list \<Rightarrow> price_level list" where
  "resize_order oid newSize ls =
     map (\<lambda>l. l\<lparr>level_orders :=
                  map (\<lambda>ord. if order_id ord = oid then ord\<lparr>order_size := newSize\<rparr> else ord)
                    (level_orders l)\<rparr>) ls"

text \<open>
  Modelled from the spec: \<^verbatim>\<open>loadSnapshot\<close> replaces the entire book content and sets the
  sequence to the one of the snapshot; the constructor of the missing \<^verbatim>\<open>L3OrderBookSync\<close>.
\<close>

definition loadSnapshot :: "snapshot \<Rightarrow> order_book \<Rightarrow> order_book" where
  "loadSnapshot snap b =
     \<lparr>book_bids = foldl (\<lambda>ls ord. add_order Bid ord ls) [] (snap_bids snap),
      book_asks = foldl (\<lambda>ls ord. add_order Ask ord ls) [] (snap_asks snap),
      book_sequence = snap_sequence snap\<rparr>"

text \<open>
  Modelled from the spec: the lookup of an order id in the whole book; the order index of
  the missing \<^verbatim>\<open>L3OrderBookSync\<close>.
\<close>

definition lookup_order :: "order_book \<Rightarrow> nat \<Rightarrow> order option" where
  "lookup_order b oid =
     (case find_order oid (book_bids b) of
        Some ord \<Rightarrow> Some ord
      | None \<Rightarrow> find_order oid (book_asks b))"

text \<open>
  Modelled from the spec: the ids of the orders that rest anywhere in the book; the order
  index of the missing \<^verbatim>\<open>L3OrderBookSync\<close>.
\<close>

definition book_ids :: "order_book \<Rightarrow> nat set" where
  "book_ids b = set (side_ids (book_bids b)) \<union> set (side_ids (book_asks b))"

text \<open>
  Modelled from the spec: \<^verbatim>\<open>applyOpen\<close> inserts the order on its side and reports a change;
  the \<^verbatim>\<open>onOrderOpen\<close> of the missing \<^verbatim>\<open>L3OrderBookSync\<close>.
\<close>

definition applyOpen :: "order_book \<Rightarrow> nat \<Rightarrow> side \<Rightarrow> rat \<Rightarrow> rat \<Rightarrow> bool \<times> order_book" where
  "applyOpen b oid s price sz =
     (let ord = \<lparr>order_id = oid, order_side = s, order_price = price, order_size = sz\<rparr>
      in case s of
           Bid \<Rightarrow> (True, b\<lparr>book_bids := add_order Bid ord (book_bids b)\<rparr>)
         | Ask \<Rightarrow> (True, b\<lparr>book_asks := add_order Ask ord (book_asks b)\<rparr>))"

text \<open>
  Modelled from the spec: \<^verbatim>\<open>applyDone\<close> removes the order from its level and reports
  whether the book changed, which is false for an unknown id; the \<^verbatim>\<open>onOrderDone\<close> of the
  missing \<^verbatim>\<open>L3OrderBookSync\<close>.
\<close>

definition applyDone :: "order_book \<Rightarrow> nat \<Rightarrow> bool \<times> order_book" where
  "applyDone b oid =
     (case lookup_order b oid of
        None \<Rightarrow> (False, b)
      | Some ord \<Rightarrow>
          (True, b\<lparr>book_bids := remove_order oid (book_bids b),
                   book_asks := remove_order oid (book_asks b)\<rparr>))"

text \<open>
  Modelled from the spec: \<^verbatim>\<open>applyMatch\<close> takes the trade size from the remaining size of
  the maker order and removes the order when nothing remains; the \<^verbatim>\<open>onOrderMatch\<close> of the
  missing \<^verbatim>\<open>L3OrderBookSync\<close>.
\<close>

definition applyMatch :: "order_book \<Rightarrow> nat \<Rightarrow> rat \<Rightarrow> bool \<times> order_book" where
  "applyMatch b makerOrderId tradeSize =
     (case lookup_order b makerOrderId of
        None \<Rightarrow> (False, b)
      | Some ord \<Rightarrow>
          (if order_size ord - tradeSize \<le> 0
           then (True, b\<lparr>book_bids := remove_order makerOrderId (book_bids b),
                         book_asks := remove_order makerOrderId (book_asks b)\<rparr>)
           else (True,
                 b\<lparr>book_bids := resize_order makerOrderId (order_size ord - tradeSize) (book_bids b),
                   book_asks := resize_order makerOrderId (order_size ord - tradeSize) (book_asks b)\<rparr>)))"

text \<open>
  Modelled from the spec: \<^verbatim>\<open>applyChange\<close> sets the remaining size of the order in place;
  the \<^verbatim>\<open>onOrderChange\<close> of the missing \<^verbatim>\<open>L3OrderBookSync\<close>.
\<close>

definition applyChange :: "order_book \<Rightarrow> nat \<Rightarrow> rat \<Rightarrow> bool \<times> order_book" where
  "applyChange b oid newSize =
     (case lookup_order b oid of
        None \<Rightarrow> (False, b)
      | Some ord \<Rightarrow>
          (True, b\<lparr>book_bids := resize_order oid newSize (book_bids b),
                   book_asks := resize_order oid newSize (book_asks b)\<rparr>))"

text \<open>
  Modelled from the spec: the events that change a book after it was seeded, and the book
  that a run of them leaves; the stream handled by the missing \<^verbatim>\<open>L3OrderBookSync\<close>.
\<close>

datatype book_event =
    Open nat side rat rat
  | Done nat
  | Match nat rat
  | Change nat rat

text \<open>
  Modelled from the spec: one event applied through the public contract of the merge
  engine; the handlers of the missing \<^verbatim>\<open>L3OrderBookSync\<close>.
\<close>

fun apply_event :: "order_book \<Rightarrow> book_event \<Rightarrow> order_book" where
  "apply_event b (Open oid s price sz) = snd (applyOpen b oid s price sz)"
| "apply_event b (Done oid) = snd (applyDone b oid)"
| "apply_event b (Match oid tradeSize) = snd (applyMatch b oid tradeSize)"
| "apply_event b (Change oid newSize) = snd (applyChange b oid newSize)"

text \<open>
  Modelled from the spec: a run of events applied in order; the stream handled by the
  missing \<^verbatim>\<open>L3OrderBookSync\<close>.
\<close>

definition apply_events :: "order_book \<Rightarrow> book_event list \<Rightarrow> order_book" where
  "apply_events b evs = foldl apply_event b evs"

subsection \<open>The read-only view of \<^verbatim>\<open>client.py\<close>\<close>

text \<open>
  Modelled from the spec: \<^verbatim>\<open>getSequence\<close> of the missing \<^verbatim>\<open>L3OrderBookSync\<close>, a read-only
  accessor.
\<close>

definition sync_getSequence :: "order_book \<Rightarrow> nat" where
  "sync_getSequence b = book_sequence b"

text \<open>
  Modelled from the spec: \<^verbatim>\<open>getBids\<close> of the missing \<^verbatim>\<open>L3OrderBookSync\<close>, the container of
  the bid levels.
\<close>

definition sync_getBids :: "order_book \<Rightarrow> price_level list" where
  "sync_getBids b = book_bids b"

text \<open>
  Modelled from the spec: \<^verbatim>\<open>getAsks\<close> of the missing \<^verbatim>\<open>L3OrderBookSync\<close>, the container of
  the ask levels.
\<close>

definition sync_getAsks :: "order_book \<Rightarrow> price_level list" where
  "sync_getAsks b = book_asks b"

text \<open>
  Modelled from the spec: \<^verbatim>\<open>getValues\<close> of the missing price level container, the first
  \<open>maxValues\<close> levels, best first.
\<close>

definition getValues :: "price_level list \<Rightarrow> nat \<Rightarrow> price_level list" where
  "getValues priceLevels maxValues = take maxValues priceLevels"

text \<open>
  \<^verbatim>\<open>OrderBookLevel\<close>: the constructor stores price and size as given; the getters return
  them through Python's \<^verbatim>\<open>float\<close>, a parameter here.
\<close>

record obook_level =
  obl_price :: rat
  obl_size :: rat

definition OrderBookLevel :: "rat \<Rightarrow> rat \<Rightarrow> obook_level" where
  "OrderBookLevel price sz = \<lparr>obl_price = price, obl_size = sz\<rparr>"

definition getPrice :: "(rat \<Rightarrow> 'f) \<Rightarrow> obook_level \<Rightarrow> 'f" where
  "getPrice float l = float (obl_price l)"

definition getSize :: "(rat \<Rightarrow> 'f) \<Rightarrow> obook_level \<Rightarrow> 'f" where
  "getSize float l = float (obl_size l)"

text \<open>\<^verbatim>\<open>pricelevels_to_obooklevels\<close>.\<close>

definition pricelevels_to_obooklevels :: "price_level list \<Rightarrow> nat \<Rightarrow> obook_level list" where
  "pricelevels_to_obooklevels priceLevels maxValues =
     map (\<lambda>level. OrderBookLevel (level_getPrice level) (level_getSize level))
       (getValues priceLevels maxValues)"

text \<open>
  \<^verbatim>\<open>L3OrderBook\<close> wraps the book. Its accessors assign nothing, so each returns its
  result together with the book as it was given; \<^verbatim>\<open>maxValues\<close> is 20 when the caller
  gives none.
\<close>

definition getSequence :: "order_book \<Rightarrow> nat \<times> order_book" where
  "getSequence b = (sync_getSequence b, b)"

definition getBids :: "order_book \<Rightarrow> nat option \<Rightarrow> obook_level list \<times> order_book" where
  "getBids b maxValues =
     (pricelevels_to_obooklevels (sync_getBids b) (case maxValues of None \<Rightarrow> 20 | Some n \<Rightarrow> n),
      b)"

definition getAsks :: "order_book \<Rightarrow> nat option \<Rightarrow> obook_level list \<times> order_book" where
  "getAsks b maxValues =
     (pricelevels_to_obooklevels (sync_getAsks b) (case maxValues of None \<Rightarrow> 20 | Some n \<Rightarrow> n),
      b)"

text \<open>
  Modelled from the spec: the levels of a side are in order when each price is better than
  every price behind it (best bid first, best ask first); the ordering of the missing
  price level containers.
\<close>

definition levels_sorted :: "side \<Rightarrow> price_level list \<Rightarrow> bool" where
  "levels_sorted s ls = sorted_wrt (better s) (map level_price ls)"

text \<open>
  Modelled from the spec: a book is in order when both of its sides are; the ordering of
  the missing \<^verbatim>\<open>L3OrderBookSync\<close>.
\<close>

definition book_sorted :: "order_book \<Rightarrow> bool" where
  "book_sorted b = (levels_sorted Bid (book_bids b) \<and> levels_sorted Ask (book_asks b))"

text \<open>A snapshot and a run of events for evaluating the book.\<close>

definition sample_snapshot :: snapshot where
  "sample_snapshot =
     \<lparr>snap_sequence = 100,
      snap_bids = [\<lparr>order_id = 1, order_side = Bid, order_price = 10, order_size = 1\<rparr>,
                   \<lparr>order_id = 2, order_side = Bid, order_price = 12, order_size = 3\<rparr>,
                   \<lparr>order_id = 3, order_side = Bid, order_price = 10, order_size = 2\<rparr>],
      snap_asks = [\<lparr>order_id = 4, order_side = Ask, order_price = 15, order_size = 2\<rparr>,
                   \<lparr>order_id = 5, order_side = Ask, order_price = 13, order_size = 1\<rparr>]\<rparr>"

definition empty_book :: order_book where
  "empty_book = \<lparr>book_bids = [], book_asks = [], book_sequence = 0\<rparr>"

definition sample_book :: order_book where
  "sample_book = apply_events (loadSnapshot sample_snapshot empty_book) [Open 6 Bid 11 5, Done 2]"

section \<open>Properties of the client\<close>

subsection \<open>Connecting\<close>

lemma wait_connect_upto:
  "k \<le> resolved_after a \<Longrightarrow> wait_connect a k = resolved_after a"
proof (induction "resolved_after a - k" arbitrary: k)
  case 0
  then show ?case by (simp add: alive_at_def connected_at_def)
next
  case (Suc d)
  then have "k < resolved_after a" by simp
  moreover from Suc have "wait_connect a (Suc k) = resolved_after a" by simp
  ultimately show ?case by (simp add: alive_at_def connected_at_def)
qed

lemma wait_connect_0: "wait_connect a 0 = resolved_after a"
  by (simp add: wait_connect_upto del: wait_connect.simps)

lemma isConnected_thread_at: "isConnected (thread_at a k) = connected_at a k"
  by (simp add: thread_at_def onOpened_def queue_put_def Let_def)

lemma isConnected_attempt_thread: "isConnected (attempt_thread a) = connects a"
  by (simp add: attempt_thread_def isConnected_thread_at connected_at_def)

lemma connectWS_step:
  "connectWS env retry c acts =
     (let a = attempts env (attemptsMade c);
          c' = c\<lparr>wsClientThread := Some (attempt_thread a), attemptsMade := Suc (attemptsMade c)\<rparr>;
          acts' = acts @ attempt_actions a
      in if connects a \<or> \<not> retry then Some (c', acts') else connectWS env retry c' acts')"
  by (subst connectWS.simps)
     (simp add: Let_def wait_connect_0 isConnected_thread_at connected_at_def
        attempt_thread_def attempt_actions_def del: wait_connect.simps)

lemma connectWS_no_retry:
  "connectWS env False c acts =
     Some (c\<lparr>wsClientThread := Some (attempt_thread (attempts env (attemptsMade c))),
              attemptsMade := Suc (attemptsMade c)\<rparr>,
           acts @ attempt_actions (attempts env (attemptsMade c)))"
  by (subst connectWS_step) (simp add: Let_def)




lemma dispatch_table_dom: "dom (ORDER_BOOK_EVENT_DISPATCH env) = order_events"
  by (auto simp: ORDER_BOOK_EVENT_DISPATCH_def order_events_def Event_defs split: if_splits)


lemma dispatch_refresh:
  assumes "wsClientThread c = Some t" "ws_queue t = (eventType, eventData) # rest"
    and "eventType = CONNECTED \<or> eventType = SEQ_NR_MISMATCH"
  shows "dispatch env c = Some (returning True (refreshOrderBook env (popped c t rest)))"
  using assms
  by (auto simp: dispatch_def popped_def onConnected_def onSeqNrMismatch_def Event_defs)

lemma dispatch_disconnected:
  assumes "wsClientThread c = Some t" "ws_queue t = (DISCONNECTED, eventData) # rest"
  shows "dispatch env c = map_option (returning True) (onDisconnected env (popped c t rest))"
  using assms by (simp add: dispatch_def popped_def Event_defs)

lemma dispatch_order:
  assumes "wsClientThread c = Some t" "ws_queue t = (eventType, eventData) # rest"
    and "eventType \<in> order_events"
  shows "dispatch env c = Some (returning True (onOrderEvent env eventType eventData (popped c t rest)))"
  using assms by (auto simp: dispatch_def popped_def order_events_def Event_defs)

lemma dispatch_invalid:
  assumes "wsClientThread c = Some t" "ws_queue t = (eventType, eventData) # rest"
    and "eventType \<notin> order_events" "eventType \<noteq> CONNECTED" "eventType \<noteq> DISCONNECTED"
      "eventType \<noteq> SEQ_NR_MISMATCH"
  shows "dispatch env c = Some (Inr False, popped c t rest, [LogError eventType eventData])"
  using assms by (auto simp: dispatch_def popped_def order_events_def)

lemma returning_refresh:
  "returning ret (refreshOrderBook env c) =
     (case getOrderBook env (fetchesMade c) of
        None \<Rightarrow> (Inl HTTPError, c\<lparr>fetchesMade := Suc (fetchesMade c)\<rparr>, [HttpGetOrderBook])
      | Some obook \<Rightarrow>
          (Inr ret, c\<lparr>fetchesMade := Suc (fetchesMade c),
                       l3OBookSync := Some (L3OrderBookSync env obook)\<rparr>, [HttpGetOrderBook]))"
  by (simp add: returning_def refreshOrderBook_def Let_def split: option.splits)

lemma returning_order:
  assumes "ORDER_BOOK_EVENT_DISPATCH env eventType = Some method"
  shows "returning ret (onOrderEvent env eventType eventData c) =
     (case l3OBookSync c of
        None \<Rightarrow> (Inl TypeError, c, [EmitOrderEvent eventData])
      | Some b \<Rightarrow>
          (Inr ret, c\<lparr>l3OBookSync := Some (snd (method b eventData))\<rparr>,
           [EmitOrderEvent eventData, CallOrderBookSync eventType eventData]
             @ (if fst (method b eventData) then [EmitL3OrderBook (snd (method b eventData))] else [])))"
  using assms
  by (simp add: returning_def onOrderEvent_def Let_def split: option.splits prod.splits)

lemma onDisconnected_stopped:
  assumes "wsClientThread c = Some t" "stopped c"
  shows "onDisconnected env c =
           Some (Inr (), c\<lparr>wsClientThread := Some (t\<lparr>is_alive := False\<rparr>)\<rparr>, [ThreadJoin])"
  using assms by (simp add: onDisconnected_def)

lemma onDisconnected_running:
  assumes "wsClientThread c = Some t" "\<not> stopped c"
  shows "onDisconnected env c =
           map_option (\<lambda>(c2, acts). (Inr (), c2, acts))
             (connectWS env True (c\<lparr>wsClientThread := Some (t\<lparr>is_alive := False\<rparr>)\<rparr>) [ThreadJoin])"
  using assms by (simp add: onDisconnected_def split: option.splits)


lemma routed_cases:
  "eventType = CONNECTED \<or> eventType = SEQ_NR_MISMATCH \<or> eventType = DISCONNECTED \<or>
   eventType \<in> order_events \<or> eventType \<notin> routed_events"
  by (auto simp: routed_events_def)


lemma dispatch_unrouted:
  assumes "wsClientThread c = Some t" "ws_queue t = (eventType, eventData) # rest"
    and "eventType \<notin> routed_events"
  shows "dispatch env c = Some (Inr False, popped c t rest, [LogError eventType eventData])"
  using assms by (intro dispatch_invalid) (auto simp: routed_events_def)

text \<open>What a call of dispatch leaves, event kind by event kind.\<close>

lemma dispatch_Some_cases:
  assumes t: "wsClientThread c = Some t" and q: "ws_queue t = (eventType, eventData) # rest"
    and d: "dispatch env c = Some (r, c', acts)"
  shows "(eventType = DISCONNECTED \<and> \<not> stopped c \<or>
            (\<exists>t'. wsClientThread c' = Some t' \<and> ws_queue t' = rest)) \<and>
         (\<forall>v. r = Inr v \<longrightarrow> v = (eventType \<in> routed_events)) \<and>
         (\<forall>e. r = Inl e \<longrightarrow>
            e = HTTPError \<and> (eventType = CONNECTED \<or> eventType = SEQ_NR_MISMATCH) \<and>
              getOrderBook env (fetchesMade c) = None \<or>
            e = TypeError \<and> eventType \<in> order_events \<and> l3OBookSync c = None)"
proof -
  consider (refresh) "eventType = CONNECTED \<or> eventType = SEQ_NR_MISMATCH"
    | (disc) "eventType = DISCONNECTED"
    | (order) "eventType \<in> order_events"
    | (other) "eventType \<notin> routed_events"
    using routed_cases by blast
  then show ?thesis
  proof cases
    case refresh
    then have "eventType \<in> routed_events" by (auto simp: routed_events_def)
    with d refresh show ?thesis
      by (auto simp: dispatch_refresh[OF t q refresh] returning_refresh popped_def
            split: option.splits)
  next
    case disc
    then have in_r: "eventType \<in> routed_events" by (auto simp: routed_events_def)
    show ?thesis
    proof (cases "stopped c")
      case True
      with d disc in_r show ?thesis
        by (auto simp: dispatch_disconnected[OF t q[unfolded disc]] popped_def
            onDisconnected_stopped[where t = "t\<lparr>ws_queue := rest\<rparr>"] returning_def)
    next
      case False
      with d disc in_r show ?thesis
        by (auto simp: dispatch_disconnected[OF t q[unfolded disc]] popped_def
            onDisconnected_running[where t = "t\<lparr>ws_queue := rest\<rparr>"] returning_def)
    qed
  next
    case order
    then have in_r: "eventType \<in> routed_events" by (auto simp: routed_events_def)
    from order obtain h where m: "ORDER_BOOK_EVENT_DISPATCH env eventType = Some h"
      using dispatch_table_dom[of env] by blast
    from d order in_r show ?thesis
      by (auto simp: dispatch_order[OF t q order] returning_order[OF m] popped_def
            split: option.splits)
  next
    case other
    with d show ?thesis
      by (auto simp: dispatch_unrouted[OF t q other] popped_def)
  qed
qed


lemmas sample_defs = sample_env_def sample_client_def sample_thread_def

lemma ws_queue_attempt_thread:
  "connects a \<Longrightarrow> ws_queue (attempt_thread a :: 'm ws_thread) = [(CONNECTED, NoData)]"
  by (simp add: attempt_thread_def thread_at_def connected_at_def new_thread_def onOpened_def
        queue_put_def)






subsection \<open>The claims about the client\<close>

text \<open>
  Claim C1, as the code has it. For an order event taken from the queue, \<^verbatim>\<open>dispatch\<close> first
  emits the order event, always and exactly once. While a book has been loaded it then
  calls the handler of the kind of the event on the book (\<^verbatim>\<open>onOrderMatch\<close> for a match,
  \<^verbatim>\<open>onOrderReceived\<close> for a received, \<^verbatim>\<open>onOrderOpen\<close> for an open, \<^verbatim>\<open>onOrderDone\<close> for a done,
  \<^verbatim>\<open>onOrderChange\<close> for a change), keeps the book the handler leaves, and emits that book
  exactly when the handler reports an update. While no book has been loaded the call of
  the handler raises and nothing else happens.
\<close>

theorem order_event_notifications:
  assumes "wsClientThread c = Some t" and "ws_queue t = (eventType, eventData) # rest"
    and "eventType \<in> order_events"
  shows "dispatch env c = Some
     (let handler = (if eventType = ORDER_MATCH then sync_onOrderMatch env
                     else if eventType = ORDER_RECEIVED then sync_onOrderReceived env
                     else if eventType = ORDER_OPEN then sync_onOrderOpen env
                     else if eventType = ORDER_DONE then sync_onOrderDone env
                     else sync_onOrderChange env)
      in case l3OBookSync c of
           None \<Rightarrow> (Inl TypeError, popped c t rest, [EmitOrderEvent eventData])
         | Some b \<Rightarrow>
             (Inr True, (popped c t rest)\<lparr>l3OBookSync := Some (snd (handler b eventData))\<rparr>,
              [EmitOrderEvent eventData, CallOrderBookSync eventType eventData]
                @ (if fst (handler b eventData)
                   then [EmitL3OrderBook (snd (handler b eventData))] else [])))"
proof -
  let ?h = "if eventType = ORDER_MATCH then sync_onOrderMatch env
            else if eventType = ORDER_RECEIVED then sync_onOrderReceived env
            else if eventType = ORDER_OPEN then sync_onOrderOpen env
            else if eventType = ORDER_DONE then sync_onOrderDone env
            else sync_onOrderChange env"
  from assms(3) have m: "ORDER_BOOK_EVENT_DISPATCH env eventType = Some ?h"
    by (auto simp: ORDER_BOOK_EVENT_DISPATCH_def order_events_def Event_defs)
  have book: "l3OBookSync (popped c t rest) = l3OBookSync c" by (simp add: popped_def)
  have "dispatch env c =
          Some (returning True (onOrderEvent env eventType eventData (popped c t rest)))"
    using assms by (rule dispatch_order)
  also have "returning True (onOrderEvent env eventType eventData (popped c t rest)) =
     (case l3OBookSync c of
        None \<Rightarrow> (Inl TypeError, popped c t rest, [EmitOrderEvent eventData])
      | Some b \<Rightarrow>
          (Inr True, (popped c t rest)\<lparr>l3OBookSync := Some (snd (?h b eventData))\<rparr>,
           [EmitOrderEvent eventData, CallOrderBookSync eventType eventData]
             @ (if fst (?h b eventData) then [EmitL3OrderBook (snd (?h b eventData))] else [])))"
    unfolding returning_order[OF m] book ..
  finally show ?thesis unfolding Let_def .
qed

theorem order_event_notifications_witness:
  "wsClientThread (sample_client [(ORDER_OPEN, Message 7), (ORDER_DONE, Message 9)]) =
     Some (sample_thread [(ORDER_OPEN, Message 7), (ORDER_DONE, Message 9)]) \<and>
   ws_queue (sample_thread [(ORDER_OPEN, Message 7), (ORDER_DONE, Message 9)]) =
     (ORDER_OPEN, Message 7) # [(ORDER_DONE, Message 9)] \<and>
   ORDER_OPEN \<in> order_events \<and>
   dispatch sample_env (sample_client [(ORDER_OPEN, Message 7), (ORDER_DONE, Message 9)]) =
     Some (Inr True,
           (sample_client [(ORDER_DONE, Message 9)])\<lparr>l3OBookSync := Some [1, 2, 7]\<rparr>,
           [EmitOrderEvent (Message 7), CallOrderBookSync ORDER_OPEN (Message 7),
            EmitL3OrderBook [1, 2, 7]]) \<and>
   wsClientThread (sample_client [(ORDER_DONE, Message 9)]) =
     Some (sample_thread [(ORDER_DONE, Message 9)]) \<and>
   ws_queue (sample_thread [(ORDER_DONE, Message 9)]) = (ORDER_DONE, Message 9) # [] \<and>
   ORDER_DONE \<in> order_events \<and>
   dispatch sample_env (sample_client [(ORDER_DONE, Message 9)]) =
     Some (Inr True, (sample_client [])\<lparr>l3OBookSync := Some [1, 2]\<rparr>,
           [EmitOrderEvent (Message 9), CallOrderBookSync ORDER_DONE (Message 9)])"
  using order_event_notifications
    [of "sample_client [(ORDER_OPEN, Message 7), (ORDER_DONE, Message 9)]"
        "sample_thread [(ORDER_OPEN, Message 7), (ORDER_DONE, Message 9)]"
        ORDER_OPEN "Message 7" "[(ORDER_DONE, Message 9)]" sample_env]
    order_event_notifications
    [of "sample_client [(ORDER_DONE, Message 9)]" "sample_thread [(ORDER_DONE, Message 9)]"
        ORDER_DONE "Message 9" "[]" sample_env]
  by (simp add: sample_defs order_events_def Event_defs popped_def)

text \<open>
  Claim C1 as stated fails while no book has been loaded: the order event is emitted, the
  call of the handler raises and nothing is applied to a book.
\<close>

theorem order_event_without_book_counterexample:
  "dispatch sample_env ((sample_client [(ORDER_OPEN, Message 7)])\<lparr>l3OBookSync := None\<rparr>) =
     Some (Inl TypeError, (sample_client [])\<lparr>l3OBookSync := None\<rparr>,
           [EmitOrderEvent (Message 7)])"
  by (simp add: dispatch_def onOrderEvent_def returning_def ORDER_BOOK_EVENT_DISPATCH_def
        sample_defs Event_defs)

text \<open>
  Claim C2, as the code has it. On \<^verbatim>\<open>CONNECTED\<close> and on \<^verbatim>\<open>SEQ_NR_MISMATCH\<close> alike, \<^verbatim>\<open>dispatch\<close>
  makes exactly one snapshot request and nothing else. When the request answers, the book
  is replaced by the one built from the snapshot, whatever it was before; the events behind
  the signal stay in the queue, none of them applied, and the order event that comes next
  is applied to the new book by the next \<^verbatim>\<open>dispatch\<close>. When the request raises, there is no
  reseed: the exception leaves \<^verbatim>\<open>dispatch\<close> and the book is the one from before.
\<close>

theorem reseed_on_connect_and_mismatch:
  assumes "wsClientThread c = Some t" and "ws_queue t = (eventType, eventData) # rest"
    and "eventType = CONNECTED \<or> eventType = SEQ_NR_MISMATCH"
  shows "dispatch env c = Some
     (case getOrderBook env (fetchesMade c) of
        None \<Rightarrow> (Inl HTTPError, (popped c t rest)\<lparr>fetchesMade := Suc (fetchesMade c)\<rparr>,
                 [HttpGetOrderBook])
      | Some obook \<Rightarrow>
          (Inr True, (popped c t rest)\<lparr>fetchesMade := Suc (fetchesMade c),
                       l3OBookSync := Some (L3OrderBookSync env obook)\<rparr>, [HttpGetOrderBook])) \<and>
     (\<forall>obook k d rest' h.
        getOrderBook env (fetchesMade c) = Some obook \<and> rest = (k, d) # rest' \<and>
        ORDER_BOOK_EVENT_DISPATCH env k = Some h \<longrightarrow>
        (\<exists>c1. dispatch env c = Some (Inr True, c1, [HttpGetOrderBook]) \<and>
              dispatch env c1 = Some
                (Inr True,
                 (popped c1 t rest')\<lparr>l3OBookSync := Some (snd (h (L3OrderBookSync env obook) d))\<rparr>,
                 [EmitOrderEvent d, CallOrderBookSync k d]
                   @ (if fst (h (L3OrderBookSync env obook) d)
                      then [EmitL3OrderBook (snd (h (L3OrderBookSync env obook) d))] else [])))) \<and>
     (\<forall>b k d rest' h.
        getOrderBook env (fetchesMade c) = None \<and> l3OBookSync c = Some b \<and>
        rest = (k, d) # rest' \<and> ORDER_BOOK_EVENT_DISPATCH env k = Some h \<longrightarrow>
        (\<exists>c1. dispatch env c = Some (Inl HTTPError, c1, [HttpGetOrderBook]) \<and>
              dispatch env c1 = Some
                (Inr True, (popped c1 t rest')\<lparr>l3OBookSync := Some (snd (h b d))\<rparr>,
                 [EmitOrderEvent d, CallOrderBookSync k d]
                   @ (if fst (h b d) then [EmitL3OrderBook (snd (h b d))] else []))))"
proof (intro conjI allI impI)
  show "dispatch env c = Some
     (case getOrderBook env (fetchesMade c) of
        None \<Rightarrow> (Inl HTTPError, (popped c t rest)\<lparr>fetchesMade := Suc (fetchesMade c)\<rparr>,
                 [HttpGetOrderBook])
      | Some obook \<Rightarrow>
          (Inr True, (popped c t rest)\<lparr>fetchesMade := Suc (fetchesMade c),
                       l3OBookSync := Some (L3OrderBookSync env obook)\<rparr>, [HttpGetOrderBook]))"
    by (simp add: dispatch_refresh[OF assms] returning_refresh popped_def split: option.splits)
next
  fix obook k d rest' h
  assume a: "getOrderBook env (fetchesMade c) = Some obook \<and> rest = (k, d) # rest' \<and>
        ORDER_BOOK_EVENT_DISPATCH env k = Some h"
  let ?c1 = "(popped c t rest)\<lparr>fetchesMade := Suc (fetchesMade c),
                       l3OBookSync := Some (L3OrderBookSync env obook)\<rparr>"
  let ?t1 = "t\<lparr>ws_queue := rest\<rparr>"
  from a have first: "dispatch env c = Some (Inr True, ?c1, [HttpGetOrderBook])"
    by (simp add: dispatch_refresh[OF assms] returning_refresh popped_def)
  have t1: "wsClientThread ?c1 = Some ?t1" by (simp add: popped_def)
  from a have q1: "ws_queue ?t1 = (k, d) # rest'" by simp
  from a have "k \<in> dom (ORDER_BOOK_EVENT_DISPATCH env)" by blast
  then have k: "k \<in> order_events" by (simp add: dispatch_table_dom)
  from a have h: "ORDER_BOOK_EVENT_DISPATCH env k = Some h" by simp
  have "dispatch env ?c1 =
          Some (returning True (onOrderEvent env k d (popped ?c1 ?t1 rest')))"
    using t1 q1 k by (rule dispatch_order)
  also have "popped ?c1 ?t1 rest' = popped ?c1 t rest'" by (simp add: popped_def)
  also have "returning True (onOrderEvent env k d (popped ?c1 t rest')) =
                (Inr True,
                 (popped ?c1 t rest')\<lparr>l3OBookSync := Some (snd (h (L3OrderBookSync env obook) d))\<rparr>,
                 [EmitOrderEvent d, CallOrderBookSync k d]
                   @ (if fst (h (L3OrderBookSync env obook) d)
                      then [EmitL3OrderBook (snd (h (L3OrderBookSync env obook) d))] else []))"
    by (simp add: returning_order[OF h] popped_def)
  finally have "dispatch env ?c1 = Some
                (Inr True,
                 (popped ?c1 t rest')\<lparr>l3OBookSync := Some (snd (h (L3OrderBookSync env obook) d))\<rparr>,
                 [EmitOrderEvent d, CallOrderBookSync k d]
                   @ (if fst (h (L3OrderBookSync env obook) d)
                      then [EmitL3OrderBook (snd (h (L3OrderBookSync env obook) d))] else []))" .
  with first show "\<exists>c1. dispatch env c = Some (Inr True, c1, [HttpGetOrderBook]) \<and>
              dispatch env c1 = Some
                (Inr True,
                 (popped c1 t rest')\<lparr>l3OBookSync := Some (snd (h (L3OrderBookSync env obook) d))\<rparr>,
                 [EmitOrderEvent d, CallOrderBookSync k d]
                   @ (if fst (h (L3OrderBookSync env obook) d)
                      then [EmitL3OrderBook (snd (h (L3OrderBookSync env obook) d))] else []))"
    by blast
next
  fix b k d rest' h
  assume a: "getOrderBook env (fetchesMade c) = None \<and> l3OBookSync c = Some b \<and>
        rest = (k, d) # rest' \<and> ORDER_BOOK_EVENT_DISPATCH env k = Some h"
  let ?c1 = "(popped c t rest)\<lparr>fetchesMade := Suc (fetchesMade c)\<rparr>"
  let ?t1 = "t\<lparr>ws_queue := rest\<rparr>"
  from a have first: "dispatch env c = Some (Inl HTTPError, ?c1, [HttpGetOrderBook])"
    by (simp add: dispatch_refresh[OF assms] returning_refresh popped_def)
  have t1: "wsClientThread ?c1 = Some ?t1" by (simp add: popped_def)
  from a have q1: "ws_queue ?t1 = (k, d) # rest'" by simp
  from a have "k \<in> dom (ORDER_BOOK_EVENT_DISPATCH env)" by blast
  then have k: "k \<in> order_events" by (simp add: dispatch_table_dom)
  from a have h: "ORDER_BOOK_EVENT_DISPATCH env k = Some h" by simp
  from a have old: "l3OBookSync (popped ?c1 t rest') = Some b" by (simp add: popped_def)
  have "dispatch env ?c1 =
          Some (returning True (onOrderEvent env k d (popped ?c1 ?t1 rest')))"
    using t1 q1 k by (rule dispatch_order)
  also have "popped ?c1 ?t1 rest' = popped ?c1 t rest'" by (simp add: popped_def)
  also have "returning True (onOrderEvent env k d (popped ?c1 t rest')) =
                (Inr True, (popped ?c1 t rest')\<lparr>l3OBookSync := Some (snd (h b d))\<rparr>,
                 [EmitOrderEvent d, CallOrderBookSync k d]
                   @ (if fst (h b d) then [EmitL3OrderBook (snd (h b d))] else []))"
    by (simp add: returning_order[OF h] old)
  finally have "dispatch env ?c1 = Some
                (Inr True, (popped ?c1 t rest')\<lparr>l3OBookSync := Some (snd (h b d))\<rparr>,
                 [EmitOrderEvent d, CallOrderBookSync k d]
                   @ (if fst (h b d) then [EmitL3OrderBook (snd (h b d))] else []))" .
  with first show "\<exists>c1. dispatch env c = Some (Inl HTTPError, c1, [HttpGetOrderBook]) \<and>
              dispatch env c1 = Some
                (Inr True, (popped c1 t rest')\<lparr>l3OBookSync := Some (snd (h b d))\<rparr>,
                 [EmitOrderEvent d, CallOrderBookSync k d]
                   @ (if fst (h b d) then [EmitL3OrderBook (snd (h b d))] else []))"
    by blast
qed

theorem reseed_on_connect_and_mismatch_witness:
  "wsClientThread (sample_client [(SEQ_NR_MISMATCH, Sequence 12), (ORDER_OPEN, Message 7)]) =
     Some (sample_thread [(SEQ_NR_MISMATCH, Sequence 12), (ORDER_OPEN, Message 7)]) \<and>
   ws_queue (sample_thread [(SEQ_NR_MISMATCH, Sequence 12), (ORDER_OPEN, Message 7)]) =
     (SEQ_NR_MISMATCH, Sequence 12) # [(ORDER_OPEN, Message 7)] \<and>
   getOrderBook sample_env
     (fetchesMade (sample_client [(SEQ_NR_MISMATCH, Sequence 12), (ORDER_OPEN, Message 7)])) =
     Some [10, 11] \<and>
   dispatch sample_env (sample_client [(SEQ_NR_MISMATCH, Sequence 12), (ORDER_OPEN, Message 7)]) =
     Some (Inr True,
           (sample_client [(ORDER_OPEN, Message 7)])\<lparr>fetchesMade := 2, l3OBookSync := Some [10, 11]\<rparr>,
           [HttpGetOrderBook]) \<and>
   dispatch sample_env
     ((sample_client [(ORDER_OPEN, Message 7)])\<lparr>fetchesMade := 2, l3OBookSync := Some [10, 11]\<rparr>) =
     Some (Inr True,
           (sample_client [])\<lparr>fetchesMade := 2, l3OBookSync := Some [10, 11, 7]\<rparr>,
           [EmitOrderEvent (Message 7), CallOrderBookSync ORDER_OPEN (Message 7),
            EmitL3OrderBook [10, 11, 7]])"
proof -
  let ?q = "[(SEQ_NR_MISMATCH, Sequence 12), (ORDER_OPEN, Message (7::nat))]"
  have t: "wsClientThread (sample_client ?q) = Some (sample_thread ?q)"
    by (simp add: sample_defs)
  have q: "ws_queue (sample_thread ?q) = (SEQ_NR_MISMATCH, Sequence 12) # [(ORDER_OPEN, Message 7)]"
    by (simp add: sample_defs)
  have g: "getOrderBook sample_env (fetchesMade (sample_client ?q)) = Some [10, 11]"
    by (simp add: sample_defs)
  have h: "ORDER_BOOK_EVENT_DISPATCH sample_env ORDER_OPEN = Some (sync_onOrderOpen sample_env)"
    by (simp add: ORDER_BOOK_EVENT_DISPATCH_def Event_defs)
  have sig: "SEQ_NR_MISMATCH = CONNECTED \<or> SEQ_NR_MISMATCH = SEQ_NR_MISMATCH" by simp
  note both = reseed_on_connect_and_mismatch[OF t q sig, of sample_env]
  note inst = both[THEN conjunct1] both[THEN conjunct2, THEN conjunct1]
  from inst g have 1: "dispatch sample_env (sample_client ?q) =
     Some (Inr True,
           (sample_client [(ORDER_OPEN, Message 7)])\<lparr>fetchesMade := 2, l3OBookSync := Some [10, 11]\<rparr>,
           [HttpGetOrderBook])"
    by (simp add: sample_defs popped_def)
  from inst g h obtain c1 where
    c1: "dispatch sample_env (sample_client ?q) = Some (Inr True, c1, [HttpGetOrderBook])"
    and 2: "dispatch sample_env c1 = Some
                (Inr True,
                 (popped c1 (sample_thread ?q) [])\<lparr>l3OBookSync :=
                    Some (snd (sync_onOrderOpen sample_env (L3OrderBookSync sample_env [10, 11]) (Message 7)))\<rparr>,
                 [EmitOrderEvent (Message 7), CallOrderBookSync ORDER_OPEN (Message 7)]
                   @ (if fst (sync_onOrderOpen sample_env (L3OrderBookSync sample_env [10, 11]) (Message 7))
                      then [EmitL3OrderBook (snd (sync_onOrderOpen sample_env (L3OrderBookSync sample_env [10, 11]) (Message 7)))] else []))"
    by blast
  from c1 1 have "c1 = (sample_client [(ORDER_OPEN, Message 7)])\<lparr>fetchesMade := 2, l3OBookSync := Some [10, 11]\<rparr>"
    by simp
  with 2 have "dispatch sample_env
     ((sample_client [(ORDER_OPEN, Message 7)])\<lparr>fetchesMade := 2, l3OBookSync := Some [10, 11]\<rparr>) =
     Some (Inr True,
           (sample_client [])\<lparr>fetchesMade := 2, l3OBookSync := Some [10, 11, 7]\<rparr>,
           [EmitOrderEvent (Message 7), CallOrderBookSync ORDER_OPEN (Message 7),
            EmitL3OrderBook [10, 11, 7]])"
    by (simp add: sample_defs popped_def)
  with t q g 1 show ?thesis by simp
qed

text \<open>
  Claim C2 as stated fails when the snapshot request raises: on the sequence mismatch there
  is one request and no reseed, the exception leaves \<^verbatim>\<open>dispatch\<close>, and the next \<^verbatim>\<open>dispatch\<close>
  applies the order event that was queued behind the signal to the book from before.
\<close>

theorem failed_fetch_no_reseed_counterexample:
  "dispatch sample_env
     ((sample_client [(SEQ_NR_MISMATCH, Sequence 12), (ORDER_OPEN, Message 7)])\<lparr>fetchesMade := 0\<rparr>) =
     Some (Inl HTTPError, (sample_client [(ORDER_OPEN, Message 7)])\<lparr>fetchesMade := 1\<rparr>,
           [HttpGetOrderBook]) \<and>
   l3OBookSync ((sample_client [(ORDER_OPEN, Message 7)])\<lparr>fetchesMade := 1\<rparr>) = Some [1, 2] \<and>
   dispatch sample_env ((sample_client [(ORDER_OPEN, Message 7)])\<lparr>fetchesMade := 1\<rparr>) =
     Some (Inr True, (sample_client [])\<lparr>fetchesMade := 1, l3OBookSync := Some [1, 2, 7]\<rparr>,
           [EmitOrderEvent (Message 7), CallOrderBookSync ORDER_OPEN (Message 7),
            EmitL3OrderBook [1, 2, 7]])"
  by (simp add: dispatch_def onSeqNrMismatch_def refreshOrderBook_def onOrderEvent_def
        returning_def ORDER_BOOK_EVENT_DISPATCH_def sample_defs Event_defs)




text \<open>
  Claim C4, as the code has it. \<^verbatim>\<open>start\<close> always returns, after one connection attempt: one
  thread started, one wait for it to run, and the polls of that attempt. It raises exactly
  when that attempt ended without a connection, and the connection error is the only
  exception of \<^verbatim>\<open>start\<close>. After a \<^verbatim>\<open>start\<close> that connected, the first \<^verbatim>\<open>dispatch\<close> takes the
  connection event and raises to its caller when the snapshot request fails.
\<close>

theorem start_single_attempt:
  "start env c =
     Some (if connects (attempts env (attemptsMade c)) then Inr () else Inl ConnectError,
           c\<lparr>wsClientThread := Some (attempt_thread (attempts env (attemptsMade c))),
             attemptsMade := Suc (attemptsMade c)\<rparr>,
           attempt_actions (attempts env (attemptsMade c))) \<and>
   (connects (attempts env (attemptsMade c)) \<longrightarrow>
      dispatch env
        (c\<lparr>wsClientThread := Some (attempt_thread (attempts env (attemptsMade c))),
           attemptsMade := Suc (attemptsMade c)\<rparr>) =
      Some (case getOrderBook env (fetchesMade c) of
              None \<Rightarrow>
                (Inl HTTPError,
                 c\<lparr>wsClientThread :=
                     Some ((attempt_thread (attempts env (attemptsMade c)))\<lparr>ws_queue := []\<rparr>),
                   attemptsMade := Suc (attemptsMade c), fetchesMade := Suc (fetchesMade c)\<rparr>,
                 [HttpGetOrderBook])
            | Some obook \<Rightarrow>
                (Inr True,
                 c\<lparr>wsClientThread :=
                     Some ((attempt_thread (attempts env (attemptsMade c)))\<lparr>ws_queue := []\<rparr>),
                   attemptsMade := Suc (attemptsMade c), fetchesMade := Suc (fetchesMade c),
                   l3OBookSync := Some (L3OrderBookSync env obook)\<rparr>,
                 [HttpGetOrderBook])))"
proof (rule conjI)
  let ?a = "attempts env (attemptsMade c)"
  let ?c' = "c\<lparr>wsClientThread := Some (attempt_thread ?a), attemptsMade := Suc (attemptsMade c)\<rparr>"
  have once: "connectWS env False c [] = Some (?c', attempt_actions ?a)"
    using connectWS_no_retry[of env c "[]"] by simp
  have thread: "wsClientThread ?c' = Some (attempt_thread ?a)" by simp
  have "isConnected (attempt_thread ?a :: 'a ws_thread) = connects ?a"
    by (rule isConnected_attempt_thread)
  with once thread show "start env c =
     Some (if connects ?a then Inr () else Inl ConnectError, ?c', attempt_actions ?a)"
    by (simp add: start_def)
  show "connects ?a \<longrightarrow>
      dispatch env ?c' =
      Some (case getOrderBook env (fetchesMade c) of
              None \<Rightarrow>
                (Inl HTTPError,
                 c\<lparr>wsClientThread := Some ((attempt_thread ?a)\<lparr>ws_queue := []\<rparr>),
                   attemptsMade := Suc (attemptsMade c), fetchesMade := Suc (fetchesMade c)\<rparr>,
                 [HttpGetOrderBook])
            | Some obook \<Rightarrow>
                (Inr True,
                 c\<lparr>wsClientThread := Some ((attempt_thread ?a)\<lparr>ws_queue := []\<rparr>),
                   attemptsMade := Suc (attemptsMade c), fetchesMade := Suc (fetchesMade c),
                   l3OBookSync := Some (L3OrderBookSync env obook)\<rparr>,
                 [HttpGetOrderBook]))"
  proof
    assume conn: "connects ?a"
    then have q: "ws_queue (attempt_thread ?a :: 'a ws_thread) = (CONNECTED, NoData) # []"
      by (simp add: ws_queue_attempt_thread)
    have "dispatch env ?c' =
            Some (returning True (refreshOrderBook env (popped ?c' (attempt_thread ?a) [])))"
      using thread q by (rule dispatch_refresh) simp
    then show "dispatch env ?c' =
      Some (case getOrderBook env (fetchesMade c) of
              None \<Rightarrow>
                (Inl HTTPError,
                 c\<lparr>wsClientThread := Some ((attempt_thread ?a)\<lparr>ws_queue := []\<rparr>),
                   attemptsMade := Suc (attemptsMade c), fetchesMade := Suc (fetchesMade c)\<rparr>,
                 [HttpGetOrderBook])
            | Some obook \<Rightarrow>
                (Inr True,
                 c\<lparr>wsClientThread := Some ((attempt_thread ?a)\<lparr>ws_queue := []\<rparr>),
                   attemptsMade := Suc (attemptsMade c), fetchesMade := Suc (fetchesMade c),
                   l3OBookSync := Some (L3OrderBookSync env obook)\<rparr>,
                 [HttpGetOrderBook]))"
      by (simp add: returning_refresh popped_def split: option.splits)
  qed
qed

theorem start_single_attempt_witness:
  "start sample_env (Client_init\<lparr>fetchesMade := 1\<rparr>) =
     Some (Inl ConnectError,
           Client_init\<lparr>wsClientThread :=
               Some \<lparr>is_alive = False, isConnected = False, stopRequested = False, ws_queue = []\<rparr>,
             attemptsMade := 1, fetchesMade := 1\<rparr>,
           [ThreadStart, WaitRunning, Sleep]) \<and>
   connects (attempts sample_env 3) \<and>
   start sample_env (Client_init\<lparr>attemptsMade := 3, fetchesMade := 1\<rparr>) =
     Some (Inr (),
           Client_init\<lparr>wsClientThread :=
               Some \<lparr>is_alive = True, isConnected = True, stopRequested = False,
                     ws_queue = [(CONNECTED, NoData)]\<rparr>,
             attemptsMade := 4, fetchesMade := 1\<rparr>,
           [ThreadStart, WaitRunning, Sleep, Sleep]) \<and>
   dispatch sample_env
     (Client_init\<lparr>wsClientThread :=
               Some \<lparr>is_alive = True, isConnected = True, stopRequested = False,
                     ws_queue = [(CONNECTED, NoData)]\<rparr>,
             attemptsMade := 4, fetchesMade := 1\<rparr>) =
     Some (Inr True,
           Client_init\<lparr>wsClientThread :=
               Some \<lparr>is_alive = True, isConnected = True, stopRequested = False, ws_queue = []\<rparr>,
             attemptsMade := 4, fetchesMade := 2, l3OBookSync := Some [10, 11]\<rparr>,
           [HttpGetOrderBook])"
  using start_single_attempt [of sample_env "Client_init\<lparr>fetchesMade := 1\<rparr>"]
    start_single_attempt [of sample_env "Client_init\<lparr>attemptsMade := 3, fetchesMade := 1\<rparr>"]
  by (simp add: sample_defs Client_init_def attempt_thread_def attempt_actions_def thread_at_def
        alive_at_def connected_at_def new_thread_def onOpened_def queue_put_def numeral_2_eq_2)

text \<open>
  Claim C4 as stated fails in its last clause: after a \<^verbatim>\<open>start\<close> that succeeded, the failure
  of the snapshot request is raised to the caller of \<^verbatim>\<open>dispatch\<close>.
\<close>

theorem steady_state_raises_counterexample:
  "start sample_env (Client_init\<lparr>attemptsMade := 3\<rparr>) =
     Some (Inr (),
           Client_init\<lparr>wsClientThread :=
               Some \<lparr>is_alive = True, isConnected = True, stopRequested = False,
                     ws_queue = [(CONNECTED, NoData)]\<rparr>,
             attemptsMade := 4\<rparr>,
           [ThreadStart, WaitRunning, Sleep, Sleep]) \<and>
   dispatch sample_env
     (Client_init\<lparr>wsClientThread :=
               Some \<lparr>is_alive = True, isConnected = True, stopRequested = False,
                     ws_queue = [(CONNECTED, NoData)]\<rparr>,
             attemptsMade := 4\<rparr>) =
     Some (Inl HTTPError,
           Client_init\<lparr>wsClientThread :=
               Some \<lparr>is_alive = True, isConnected = True, stopRequested = False, ws_queue = []\<rparr>,
             attemptsMade := 4, fetchesMade := 1\<rparr>,
           [HttpGetOrderBook])"
proof -
  have "start sample_env (Client_init\<lparr>attemptsMade := 3\<rparr>) =
     Some (Inr (),
           Client_init\<lparr>wsClientThread :=
               Some \<lparr>is_alive = True, isConnected = True, stopRequested = False,
                     ws_queue = [(CONNECTED, NoData)]\<rparr>,
             attemptsMade := 4\<rparr>,
           [ThreadStart, WaitRunning, Sleep, Sleep])"
    by (simp add: start_def connectWS_no_retry isConnected_attempt_thread sample_defs
        Client_init_def attempt_thread_def attempt_actions_def thread_at_def
        alive_at_def connected_at_def new_thread_def onOpened_def queue_put_def numeral_2_eq_2)
  moreover have "dispatch sample_env
     (Client_init\<lparr>wsClientThread :=
               Some \<lparr>is_alive = True, isConnected = True, stopRequested = False,
                     ws_queue = [(CONNECTED, NoData)]\<rparr>,
             attemptsMade := 4\<rparr>) =
     Some (Inl HTTPError,
           Client_init\<lparr>wsClientThread :=
               Some \<lparr>is_alive = True, isConnected = True, stopRequested = False, ws_queue = []\<rparr>,
             attemptsMade := 4, fetchesMade := 1\<rparr>,
           [HttpGetOrderBook])"
    by (simp add: dispatch_def onConnected_def refreshOrderBook_def returning_def sample_defs
        Client_init_def Event_defs)
  ultimately show ?thesis by (rule conjI)
qed



text \<open>
  Claim C6, as the code has it. When a worker thread exists, \<^verbatim>\<open>stop\<close> sets the stopped flag
  and asks the worker to stop, and \<^verbatim>\<open>eof\<close> holds afterwards; when none exists (before
  \<^verbatim>\<open>start\<close>), \<^verbatim>\<open>stop\<close> changes nothing. In both cases a second call leaves the client as
  the first did.
\<close>

theorem stop_sets_flag_when_started:
  "(\<forall>t. wsClientThread c = Some t \<longrightarrow>
        stop c = (c\<lparr>stopped := True, wsClientThread := Some (stopClient t)\<rparr>, [ThreadStop]) \<and>
        eof (fst (stop c))) \<and>
   (wsClientThread c = None \<longrightarrow> stop c = (c, [])) \<and>
   fst (stop (fst (stop c))) = fst (stop c)"
  by (cases "wsClientThread c") (simp_all add: stop_def eof_def stopClient_def)

theorem stop_sets_flag_when_started_witness:
  "wsClientThread (sample_client []) = Some (sample_thread []) \<and>
   stop (sample_client []) =
     ((sample_client [])\<lparr>stopped := True,
        wsClientThread := Some ((sample_thread [])\<lparr>stopRequested := True\<rparr>)\<rparr>, [ThreadStop]) \<and>
   eof (fst (stop (sample_client []))) \<and>
   wsClientThread (Client_init :: (nat, nat list) client) = None \<and>
   stop (Client_init :: (nat, nat list) client) = (Client_init, [])"
proof -
  have t: "wsClientThread (sample_client []) = Some (sample_thread [])"
    by (simp add: sample_defs)
  have n: "wsClientThread (Client_init :: (nat, nat list) client) = None"
    by (simp add: Client_init_def)
  from stop_sets_flag_when_started[of "sample_client []"] t
  have "stop (sample_client []) =
     ((sample_client [])\<lparr>stopped := True,
        wsClientThread := Some (stopClient (sample_thread []))\<rparr>, [ThreadStop]) \<and>
        eof (fst (stop (sample_client [])))" by blast
  moreover from stop_sets_flag_when_started[of "Client_init :: (nat, nat list) client"] n
  have "stop (Client_init :: (nat, nat list) client) = (Client_init, [])" by blast
  ultimately show ?thesis using t n by (simp add: stopClient_def eof_def)
qed

text \<open>
  Claim C6 as stated fails before \<^verbatim>\<open>start\<close>: on a fresh client \<^verbatim>\<open>stop\<close> does not reach the
  stopped state.
\<close>

theorem stop_before_start_counterexample:
  "\<not> eof (fst (stop (Client_init :: (nat, nat list) client)))"
  by (simp add: stop_def eof_def Client_init_def)

text \<open>
  Claim C7, as the code has it. An event kind without a handler is logged and dropped, and
  \<^verbatim>\<open>dispatch\<close> returns \<^verbatim>\<open>False\<close>. The assertion of \<^verbatim>\<open>__onOrderEvent\<close> never fails. The
  exceptions that do leave \<^verbatim>\<open>dispatch\<close> come from a handler: a failed snapshot request
  on \<^verbatim>\<open>CONNECTED\<close> or \<^verbatim>\<open>SEQ_NR_MISMATCH\<close>, and the call of the book's handler while no
  book has been loaded.
\<close>

theorem dispatch_routing_never_raises:
  assumes "wsClientThread c = Some t" and "ws_queue t = (eventType, eventData) # rest"
  shows "(eventType \<notin> routed_events \<longrightarrow>
            dispatch env c = Some (Inr False, popped c t rest, [LogError eventType eventData])) \<and>
         (\<forall>e c' acts. dispatch env c = Some (Inl e, c', acts) \<longrightarrow>
            e \<noteq> AssertionError \<and>
            (e = HTTPError \<and> (eventType = CONNECTED \<or> eventType = SEQ_NR_MISMATCH) \<and>
               getOrderBook env (fetchesMade c) = None \<or>
             e = TypeError \<and> eventType \<in> order_events \<and> l3OBookSync c = None))"
proof (intro conjI impI allI)
  assume "eventType \<notin> routed_events"
  with assms show "dispatch env c = Some (Inr False, popped c t rest, [LogError eventType eventData])"
    by (rule dispatch_unrouted)
next
  fix e c' acts
  assume d: "dispatch env c = Some (Inl e, c', acts)"
  from dispatch_Some_cases[OF assms d]
  have *: "e = HTTPError \<and> (eventType = CONNECTED \<or> eventType = SEQ_NR_MISMATCH) \<and>
               getOrderBook env (fetchesMade c) = None \<or>
             e = TypeError \<and> eventType \<in> order_events \<and> l3OBookSync c = None" by blast
  then show "e \<noteq> AssertionError" by auto
  from * show "e = HTTPError \<and> (eventType = CONNECTED \<or> eventType = SEQ_NR_MISMATCH) \<and>
               getOrderBook env (fetchesMade c) = None \<or>
             e = TypeError \<and> eventType \<in> order_events \<and> l3OBookSync c = None" .
qed

theorem dispatch_routing_never_raises_witness:
  "wsClientThread (sample_client [(42, Message 5)]) = Some (sample_thread [(42, Message 5)]) \<and>
   ws_queue (sample_thread [(42, Message 5)]) = (42, Message 5) # [] \<and>
   42 \<notin> routed_events \<and>
   dispatch sample_env (sample_client [(42, Message 5)]) =
     Some (Inr False, sample_client [], [LogError 42 (Message 5)])"
proof -
  have t: "wsClientThread (sample_client [(42, Message 5)]) = Some (sample_thread [(42, Message 5)])"
    by (simp add: sample_defs)
  have q: "ws_queue (sample_thread [(42, Message 5)]) = (42, Message 5) # []"
    by (simp add: sample_defs)
  have n: "42 \<notin> routed_events"
    by (simp add: routed_events_def order_events_def Event_defs)
  from dispatch_routing_never_raises[OF t q, of sample_env] n
  have "dispatch sample_env (sample_client [(42, Message 5)]) =
     Some (Inr False, popped (sample_client [(42, Message 5)]) (sample_thread [(42, Message 5)]) [],
           [LogError 42 (Message 5)])" by blast
  with t q n show ?thesis by (simp add: popped_def sample_defs)
qed

text \<open>
  Claim C7 as stated fails: when the snapshot request raises on \<^verbatim>\<open>CONNECTED\<close>, the
  exception reaches the caller of \<^verbatim>\<open>dispatch\<close>.
\<close>

theorem dispatch_raises_counterexample:
  "dispatch sample_env ((sample_client [(CONNECTED, NoData)])\<lparr>fetchesMade := 0\<rparr>) =
     Some (Inl HTTPError, (sample_client [])\<lparr>fetchesMade := 1\<rparr>, [HttpGetOrderBook])"
  by (simp add: dispatch_def onConnected_def refreshOrderBook_def returning_def sample_defs
        Event_defs)

text \<open>
  Claim C10. An error message that \<^verbatim>\<open>onError\<close> puts on an empty queue is taken from the
  queue by the next \<^verbatim>\<open>dispatch\<close>, logged and dropped, and \<^verbatim>\<open>dispatch\<close> returns \<^verbatim>\<open>False\<close>,
  as it does for an empty queue.
\<close>

theorem error_event_dropped:
  "dispatch env (c\<lparr>wsClientThread := Some (onError msg (t\<lparr>ws_queue := []\<rparr>))\<rparr>) =
     Some (Inr False, c\<lparr>wsClientThread := Some (t\<lparr>ws_queue := []\<rparr>)\<rparr>,
           [LogError ERROR (Message msg)])"
  by (simp add: dispatch_def onError_def queue_put_def Event_defs)

theorem error_event_dropped_witness:
  "dispatch sample_env ((sample_client [])\<lparr>wsClientThread := Some (onError 5 (sample_thread []))\<rparr>) =
     Some (Inr False, sample_client [], [LogError ERROR (Message 5)])"
  using error_event_dropped
    [where env = sample_env and c = "sample_client []" and msg = 5 and t = "sample_thread []"]
  by (simp add: sample_defs)

section \<open>Properties of the order book\<close>

subsection \<open>Unknown order ids\<close>

lemma find_order_unknown:
  "oid \<notin> set (side_ids ls) \<Longrightarrow> find_order oid ls = None"
proof (induction ls)
  case Nil
  then show ?case by simp
next
  case (Cons l ls)
  from Cons.prems have here: "find (\<lambda>ord. order_id ord = oid) (level_orders l) = None"
    by (auto simp: side_ids_def level_ids_def find_None_iff)
  from Cons.prems have "oid \<notin> set (side_ids ls)" by (simp add: side_ids_def)
  then have "find_order oid ls = None" by (rule Cons.IH)
  with here show ?case by simp
qed

lemma lookup_order_unknown: "oid \<notin> book_ids b \<Longrightarrow> lookup_order b oid = None"
  by (simp add: lookup_order_def book_ids_def find_order_unknown)

lemma remove_order_unknown:
  "oid \<notin> set (side_ids ls) \<Longrightarrow> remove_order oid ls = ls"
  by (induction ls) (auto simp: side_ids_def)

lemma resize_order_unknown:
  "oid \<notin> set (side_ids ls) \<Longrightarrow> resize_order oid newSize ls = ls"
proof (induction ls)
  case Nil
  then show ?case by (simp add: resize_order_def)
next
  case (Cons l ls)
  from Cons.prems have "\<forall>ord \<in> set (level_orders l). order_id ord \<noteq> oid"
    by (auto simp: side_ids_def level_ids_def)
  then have "map (\<lambda>ord. if order_id ord = oid then ord\<lparr>order_size := newSize\<rparr> else ord)
               (level_orders l) = level_orders l"
    by (induction "level_orders l") (auto simp: map_idI)
  moreover from Cons.prems have "resize_order oid newSize ls = ls"
    by (intro Cons.IH) (simp add: side_ids_def)
  ultimately show ?case by (simp add: resize_order_def)
qed

subsection \<open>Order of the levels\<close>

lemma better_trans: "better s p q \<Longrightarrow> better s q r \<Longrightarrow> better s p r"
  by (cases s) auto

lemma better_total: "p \<noteq> q \<Longrightarrow> \<not> better s p q \<Longrightarrow> better s q p"
  by (cases s) auto

lemma prices_add_order:
  "set (map level_price (add_order s ord ls)) = insert (order_price ord) (set (map level_price ls))"
  by (induction ls) auto

lemma sorted_add_order:
  "levels_sorted s ls \<Longrightarrow> levels_sorted s (add_order s ord ls)"
proof (induction ls)
  case Nil
  then show ?case by (simp add: levels_sorted_def)
next
  case (Cons l ls)
  from Cons.prems have tl: "levels_sorted s ls"
    and hd: "\<forall>q \<in> set (map level_price ls). better s (level_price l) q"
    by (simp_all add: levels_sorted_def)
  show ?case
  proof (cases "order_price ord = level_price l")
    case True
    with Cons.prems show ?thesis by (simp add: levels_sorted_def)
  next
    case False
    show ?thesis
    proof (cases "better s (order_price ord) (level_price l)")
      case True
      with hd have "\<forall>q \<in> set (map level_price ls). better s (order_price ord) q"
        using better_trans by blast
      with True False Cons.prems show ?thesis by (simp add: levels_sorted_def)
    next
      case nb: False
      from False nb have "better s (level_price l) (order_price ord)" by (rule better_total)
      with hd have "\<forall>q \<in> set (map level_price (add_order s ord ls)). better s (level_price l) q"
        unfolding prices_add_order by blast
      moreover from tl have "levels_sorted s (add_order s ord ls)" by (rule Cons.IH)
      ultimately show ?thesis using False nb by (simp add: levels_sorted_def)
    qed
  qed
qed

lemma sorted_foldl_add_order:
  "levels_sorted s ls \<Longrightarrow> levels_sorted s (foldl (\<lambda>ls ord. add_order s ord ls) ls ords)"
  by (induction ords arbitrary: ls) (simp_all add: sorted_add_order)

lemma prices_remove_order:
  "set (map level_price (remove_order oid ls)) \<subseteq> set (map level_price ls)"
  by (induction ls) (auto simp: Let_def)

lemma sorted_remove_order:
  "levels_sorted s ls \<Longrightarrow> levels_sorted s (remove_order oid ls)"
proof (induction ls)
  case Nil
  then show ?case by simp
next
  case (Cons l ls)
  from Cons.prems have tl: "levels_sorted s ls"
    and hd: "\<forall>q \<in> set (map level_price ls). better s (level_price l) q"
    by (simp_all add: levels_sorted_def)
  from hd prices_remove_order[of oid ls]
  have "\<forall>q \<in> set (map level_price (remove_order oid ls)). better s (level_price l) q" by blast
  moreover from tl have "levels_sorted s (remove_order oid ls)" by (rule Cons.IH)
  ultimately show ?case using tl hd by (simp add: levels_sorted_def Let_def)
qed

lemma prices_resize_order:
  "map level_price (resize_order oid newSize ls) = map level_price ls"
  by (simp add: resize_order_def comp_def)

lemma sorted_resize_order:
  "levels_sorted s ls \<Longrightarrow> levels_sorted s (resize_order oid newSize ls)"
  by (simp add: levels_sorted_def prices_resize_order)

lemma levels_sorted_Nil: "levels_sorted s []"
  by (simp add: levels_sorted_def)

lemma book_sorted_loadSnapshot: "book_sorted (loadSnapshot snap b)"
  by (simp add: book_sorted_def loadSnapshot_def sorted_foldl_add_order levels_sorted_Nil)

lemma book_sorted_apply_event: "book_sorted b \<Longrightarrow> book_sorted (apply_event b ev)"
  by (cases ev)
     (auto simp: book_sorted_def applyOpen_def applyDone_def applyMatch_def applyChange_def
        sorted_add_order sorted_remove_order sorted_resize_order Let_def
        split: side.splits option.splits)

lemma book_sorted_apply_events: "book_sorted b \<Longrightarrow> book_sorted (apply_events b evs)"
  unfolding apply_events_def
  by (induction evs arbitrary: b) (simp_all add: book_sorted_apply_event)

lemma obl_price_levels:
  "map obl_price (pricelevels_to_obooklevels ls n) = take n (map level_price ls)"
  by (simp add: pricelevels_to_obooklevels_def getValues_def OrderBookLevel_def
        level_getPrice_def comp_def take_map)

lemma sorted_pricelevels:
  "levels_sorted s ls \<Longrightarrow>
     sorted_wrt (\<lambda>x y. better s (obl_price x) (obl_price y)) (pricelevels_to_obooklevels ls n)"
proof -
  assume "levels_sorted s ls"
  then have "sorted_wrt (better s) (take n (map level_price ls))"
    unfolding levels_sorted_def by (rule sorted_wrt_take)
  then have "sorted_wrt (better s) (map obl_price (pricelevels_to_obooklevels ls n))"
    by (simp add: obl_price_levels)
  then show ?thesis by (simp add: sorted_wrt_map)
qed

lemma sample_book_eval:
  "sample_book =
     \<lparr>book_bids =
        [\<lparr>level_price = 11,
          level_orders = [\<lparr>order_id = 6, order_side = Bid, order_price = 11, order_size = 5\<rparr>]\<rparr>,
         \<lparr>level_price = 10,
          level_orders = [\<lparr>order_id = 1, order_side = Bid, order_price = 10, order_size = 1\<rparr>,
                          \<lparr>order_id = 3, order_side = Bid, order_price = 10, order_size = 2\<rparr>]\<rparr>],
      book_asks =
        [\<lparr>level_price = 13,
          level_orders = [\<lparr>order_id = 5, order_side = Ask, order_price = 13, order_size = 1\<rparr>]\<rparr>,
         \<lparr>level_price = 15,
          level_orders = [\<lparr>order_id = 4, order_side = Ask, order_price = 15, order_size = 2\<rparr>]\<rparr>],
      book_sequence = 100\<rparr>"
  by (simp add: sample_book_def sample_snapshot_def empty_book_def apply_events_def
        loadSnapshot_def applyOpen_def applyDone_def lookup_order_def level_ids_def Let_def)

subsection \<open>The claims about the book\<close>

text \<open>
  Claim C8. For an order id that rests nowhere in the book, \<^verbatim>\<open>applyDone\<close>, \<^verbatim>\<open>applyMatch\<close> and
  \<^verbatim>\<open>applyChange\<close> report no change and return the book as it was, sequence number
  included; the removal and the resizing themselves leave both sides untouched.
\<close>

theorem unknown_order_id_tolerated:
  assumes "oid \<notin> book_ids b"
  shows "applyDone b oid = (False, b) \<and>
         applyMatch b oid tradeSize = (False, b) \<and>
         applyChange b oid newSize = (False, b) \<and>
         remove_order oid (book_bids b) = book_bids b \<and>
         remove_order oid (book_asks b) = book_asks b \<and>
         resize_order oid newSize (book_bids b) = book_bids b \<and>
         resize_order oid newSize (book_asks b) = book_asks b"
proof -
  from assms have "lookup_order b oid = None" by (rule lookup_order_unknown)
  then have "applyDone b oid = (False, b)" "applyMatch b oid tradeSize = (False, b)"
    "applyChange b oid newSize = (False, b)"
    by (simp_all add: applyDone_def applyMatch_def applyChange_def)
  moreover from assms have "oid \<notin> set (side_ids (book_bids b))" "oid \<notin> set (side_ids (book_asks b))"
    by (simp_all add: book_ids_def)
  ultimately show ?thesis by (simp add: remove_order_unknown resize_order_unknown)
qed

theorem unknown_order_id_tolerated_witness:
  "99 \<notin> book_ids sample_book \<and>
   applyDone sample_book 99 = (False, sample_book) \<and>
   applyMatch sample_book 99 1 = (False, sample_book) \<and>
   applyChange sample_book 99 4 = (False, sample_book) \<and>
   fst (applyDone sample_book 6) \<and>
   map level_price (book_bids (snd (applyDone sample_book 6))) = [10]"
proof -
  have n: "99 \<notin> book_ids sample_book"
    by (simp add: sample_book_eval book_ids_def side_ids_def level_ids_def)
  have k: "fst (applyDone sample_book 6) \<and>
     map level_price (book_bids (snd (applyDone sample_book 6))) = [10]"
    by (simp add: sample_book_eval applyDone_def lookup_order_def level_ids_def)
  from unknown_order_id_tolerated[OF n, of 1 4] n k show ?thesis by simp
qed

text \<open>
  Claim C9. On a book seeded by a snapshot and changed by any run of events, \<^verbatim>\<open>getBids\<close>
  and \<^verbatim>\<open>getAsks\<close> leave the book as it was and return at most \<open>maxValues\<close> levels (20
  when none is given), namely the first ones of the side in their order. The price and
  the size stored in a returned level are the price of the level and the sum of the sizes
  of its orders, and its getters give the two through \<^verbatim>\<open>float\<close>. Bids come by falling
  price and asks by rising price.
\<close>

theorem getBids_getAsks_best_first:
  "(let b = apply_events (loadSnapshot snap b0) evs;
        n = (case maxValues of None \<Rightarrow> 20 | Some k \<Rightarrow> k)
    in snd (getBids b maxValues) = b \<and> snd (getAsks b maxValues) = b \<and>
       length (fst (getBids b maxValues)) \<le> n \<and> length (fst (getAsks b maxValues)) \<le> n \<and>
       map (\<lambda>x. (obl_price x, obl_size x)) (fst (getBids b maxValues)) =
         map (\<lambda>l. (level_price l, sum_list (map order_size (level_orders l))))
           (take n (book_bids b)) \<and>
       map (\<lambda>x. (obl_price x, obl_size x)) (fst (getAsks b maxValues)) =
         map (\<lambda>l. (level_price l, sum_list (map order_size (level_orders l))))
           (take n (book_asks b)) \<and>
       map (\<lambda>x. (getPrice float x, getSize float x)) (fst (getBids b maxValues)) =
         map (\<lambda>l. (float (level_price l), float (sum_list (map order_size (level_orders l)))))
           (take n (book_bids b)) \<and>
       map (\<lambda>x. (getPrice float x, getSize float x)) (fst (getAsks b maxValues)) =
         map (\<lambda>l. (float (level_price l), float (sum_list (map order_size (level_orders l)))))
           (take n (book_asks b)) \<and>
       sorted_wrt (\<lambda>x y. obl_price y < obl_price x) (fst (getBids b maxValues)) \<and>
       sorted_wrt (\<lambda>x y. obl_price x < obl_price y) (fst (getAsks b maxValues)) \<and>
       getBids b None = getBids b (Some 20) \<and> getAsks b None = getAsks b (Some 20))"
proof -
  define b where "b = apply_events (loadSnapshot snap b0) evs"
  define n where "n = (case maxValues of None \<Rightarrow> 20 | Some k \<Rightarrow> k)"
  have "book_sorted b"
    unfolding b_def by (intro book_sorted_apply_events book_sorted_loadSnapshot)
  then have sb: "levels_sorted Bid (book_bids b)" and sa: "levels_sorted Ask (book_asks b)"
    by (simp_all add: book_sorted_def)
  have gb: "fst (getBids b maxValues) = pricelevels_to_obooklevels (book_bids b) n"
    and ga: "fst (getAsks b maxValues) = pricelevels_to_obooklevels (book_asks b) n"
    by (simp_all add: getBids_def getAsks_def sync_getBids_def sync_getAsks_def n_def)
  have ro: "snd (getBids b maxValues) = b" "snd (getAsks b maxValues) = b"
    by (simp_all add: getBids_def getAsks_def)
  have len: "length (fst (getBids b maxValues)) \<le> n" "length (fst (getAsks b maxValues)) \<le> n"
    by (simp_all add: gb ga pricelevels_to_obooklevels_def getValues_def)
  have stored: "map (\<lambda>x. (obl_price x, obl_size x)) (pricelevels_to_obooklevels ls n) =
         map (\<lambda>l. (level_price l, sum_list (map order_size (level_orders l)))) (take n ls)" for ls
    by (simp add: pricelevels_to_obooklevels_def getValues_def OrderBookLevel_def
          level_getPrice_def level_getSize_def comp_def)
  have given: "map (\<lambda>x. (getPrice float x, getSize float x)) (pricelevels_to_obooklevels ls n) =
         map (\<lambda>l. (float (level_price l), float (sum_list (map order_size (level_orders l)))))
           (take n ls)" for ls
    by (simp add: pricelevels_to_obooklevels_def getValues_def OrderBookLevel_def
          level_getPrice_def level_getSize_def getPrice_def getSize_def comp_def)
  have order: "sorted_wrt (\<lambda>x y. obl_price y < obl_price x) (fst (getBids b maxValues))"
      "sorted_wrt (\<lambda>x y. obl_price x < obl_price y) (fst (getAsks b maxValues))"
    using sorted_pricelevels[OF sb, of n] sorted_pricelevels[OF sa, of n] by (simp_all add: gb ga)
  have dflt: "getBids b None = getBids b (Some 20)" "getAsks b None = getAsks b (Some 20)"
    by (simp_all add: getBids_def getAsks_def)
  from ro len stored[of "book_bids b"] stored[of "book_asks b"] given[of "book_bids b"]
    given[of "book_asks b"] order dflt
  show ?thesis
    unfolding Let_def b_def[symmetric] n_def[symmetric] gb ga by (intro conjI)
qed

theorem getBids_getAsks_best_first_witness:
  "getBids sample_book (Some 1) = ([OrderBookLevel 11 5], sample_book) \<and>
   length (fst (getBids sample_book (Some 1))) \<le> 1 \<and>
   getBids sample_book None = ([OrderBookLevel 11 5, OrderBookLevel 10 3], sample_book) \<and>
   getAsks sample_book None = ([OrderBookLevel 13 1, OrderBookLevel 15 2], sample_book) \<and>
   map (\<lambda>x. (getPrice (\<lambda>q. q) x, getSize (\<lambda>q. q) x)) (fst (getBids sample_book None)) =
     [(11, 5), (10, 3)] \<and>
   sorted_wrt (\<lambda>x y. obl_price y < obl_price x) (fst (getBids sample_book None))"
proof -
  have e: "getBids sample_book (Some 1) = ([OrderBookLevel 11 5], sample_book)"
    "getBids sample_book None = ([OrderBookLevel 11 5, OrderBookLevel 10 3], sample_book)"
    "getAsks sample_book None = ([OrderBookLevel 13 1, OrderBookLevel 15 2], sample_book)"
    by (simp_all add: sample_book_eval getBids_def getAsks_def sync_getBids_def sync_getAsks_def
          pricelevels_to_obooklevels_def getValues_def level_getPrice_def level_getSize_def)
  have "length (fst (getBids sample_book (Some 1))) \<le> 1"
    using getBids_getAsks_best_first
      [of sample_snapshot empty_book "[Open 6 Bid 11 5, Done 2]" "Some 1" "\<lambda>q. q"]
    unfolding sample_book_def Let_def option.case by (elim conjE)
  moreover have "sorted_wrt (\<lambda>x y. obl_price y < obl_price x) (fst (getBids sample_book None))"
    using getBids_getAsks_best_first
      [of sample_snapshot empty_book "[Open 6 Bid 11 5, Done 2]" None "\<lambda>q. q"]
    unfolding sample_book_def Let_def by (elim conjE)
  moreover have "map (\<lambda>x. (getPrice (\<lambda>q. q) x, getSize (\<lambda>q. q) x)) (fst (getBids sample_book None)) =
     [(11, 5), (10, 3)]"
    by (simp add: e getPrice_def getSize_def OrderBookLevel_def)
  ultimately show ?thesis using e by simp
qed

end
